theory Spec2Isabelle
  imports Complex_Main
begin

section \<open>The data cleaner of \<^verbatim>\<open>app.py\<close>: values, strings and the log\<close>

text \<open>
  The development embeds the two classes of \<^verbatim>\<open>src/app.py\<close> that carry the decision logic,
  \<^verbatim>\<open>FieldTypeDetector\<close> and the active (second, not commented out) \<^verbatim>\<open>DataCleaner\<close>.

  \<^bold>\<open>Strings.\<close> A Python \<^verbatim>\<open>str\<close> is a sequence of code points. The alphabet of the model
  is the code points 0 to 255 (Latin-1) together with the two characters beyond them
  that the source names: U+FF20, the full-width commercial at that \<^verbatim>\<open>clean_email\<close>
  replaces, and U+FFE5, the full-width yen sign that \<^verbatim>\<open>clean_numeric\<close> removes. On this
  alphabet \<^verbatim>\<open>str.lower\<close>, \<^verbatim>\<open>str.strip\<close>, \<^verbatim>\<open>\s\<close> and \<^verbatim>\<open>\d\<close> are modelled exactly: the two
  full-width characters are neither white space nor digits nor letters with a lower
  case. A literal of the source is written \<open>py ''...''\<close>.

  \<^bold>\<open>Cells.\<close> A cell of a DataFrame is absent (\<^verbatim>\<open>None\<close>/\<^verbatim>\<open>NaN\<close>, recognised by \<^verbatim>\<open>pd.isna\<close>),
  a \<^verbatim>\<open>str\<close>, an \<^verbatim>\<open>int\<close> or a \<^verbatim>\<open>float\<close>. A float is represented by the rational number it
  denotes; rounding to 53 bits is not modelled.
\<close>

datatype uchar = Ch char | Fullwidth_At | Fullwidth_Yen

type_synonym ustring = "uchar list"

definition py :: "string \<Rightarrow> ustring" where
  \<comment> \<open>a text of code points below 256\<close>
  "py s = map Ch s"

datatype cell = Null | Str ustring | PyInt int | PyFloat rat

text \<open>
  What the program takes from the Python runtime and from pandas without defining it:
  the two dates read from the clock by \<^verbatim>\<open>clean_date\<close>, the text \<^verbatim>\<open>str\<close> gives for a float,
  and the parser \<^verbatim>\<open>pd.to_numeric\<close> applies to a string (\<^verbatim>\<open>None\<close>: not a number, coerced
  to \<^verbatim>\<open>NaN\<close>). They are parameters of the model.
\<close>

record runtime =
  today_iso :: ustring
  yesterday_iso :: ustring
  float_str :: "rat \<Rightarrow> ustring"
  to_numeric_str :: "ustring \<Rightarrow> rat option"

subsection \<open>String primitives\<close>

definition is_digit :: "uchar \<Rightarrow> bool" where
  \<comment> \<open>\<^verbatim>\<open>\d\<close>: the only decimal digits of the alphabet are \<^verbatim>\<open>0\<close> to \<^verbatim>\<open>9\<close>\<close>
  "is_digit c = (c \<in> set (py ''0123456789''))"

definition latin1_space :: "char \<Rightarrow> bool" where
  \<comment> \<open>tab to carriage return, the four separators 28 to 31, space, next line (133) and
      no-break space (160)\<close>
  "latin1_space c = ((of_char c :: nat) \<in> {9, 10, 11, 12, 13, 28, 29, 30, 31, 32, 133, 160})"

fun is_space :: "uchar \<Rightarrow> bool" where
  \<comment> \<open>\<^verbatim>\<open>str.isspace\<close> and \<^verbatim>\<open>\s\<close>\<close>
  "is_space (Ch c) = latin1_space c"
| "is_space Fullwidth_At = False"
| "is_space Fullwidth_Yen = False"

definition latin1_lower :: "char \<Rightarrow> char" where
  \<comment> \<open>\<^verbatim>\<open>A\<close> to \<^verbatim>\<open>Z\<close> and the Latin-1 capitals (192 to 222 without the multiplication sign
      215) move up by 32; every other code point below 256 is its own lower case\<close>
  "latin1_lower c =
     (let n = (of_char c :: nat)
      in if (65 \<le> n \<and> n \<le> 90) \<or> (192 \<le> n \<and> n \<le> 214) \<or> (216 \<le> n \<and> n \<le> 222)
         then char_of (n + 32) else c)"

fun py_lower_char :: "uchar \<Rightarrow> uchar" where
  \<comment> \<open>neither full-width character has a lower case of its own\<close>
  "py_lower_char (Ch c) = Ch (latin1_lower c)"
| "py_lower_char Fullwidth_At = Fullwidth_At"
| "py_lower_char Fullwidth_Yen = Fullwidth_Yen"

definition py_lower :: "ustring \<Rightarrow> ustring" where
  "py_lower s = map py_lower_char s"

definition py_strip :: "ustring \<Rightarrow> ustring" where
  "py_strip s = rev (dropWhile is_space (rev (dropWhile is_space s)))"

definition py_replace :: "uchar \<Rightarrow> uchar \<Rightarrow> ustring \<Rightarrow> ustring" where
  \<comment> \<open>\<^verbatim>\<open>s.replace(a, b)\<close> for one-character \<^verbatim>\<open>a\<close> and \<^verbatim>\<open>b\<close>\<close>
  "py_replace a b s = map (\<lambda>c. if c = a then b else c) s"

definition py_remove :: "uchar \<Rightarrow> ustring \<Rightarrow> ustring" where
  \<comment> \<open>\<^verbatim>\<open>s.replace(a, '')\<close>\<close>
  "py_remove a s = filter (\<lambda>c. c \<noteq> a) s"

definition startswith :: "ustring \<Rightarrow> ustring \<Rightarrow> bool" where
  "startswith s p = (take (length p) s = p)"

fun py_in :: "ustring \<Rightarrow> ustring \<Rightarrow> bool" where
  \<comment> \<open>\<^verbatim>\<open>sub in s\<close> on strings: \<^verbatim>\<open>sub\<close> occurs as a contiguous part of \<^verbatim>\<open>s\<close>\<close>
  "py_in sub [] = (sub = [])"
| "py_in sub (c # cs) = (startswith (c # cs) sub \<or> py_in sub cs)"

declare py_in.simps [simp del]

definition zfill2 :: "ustring \<Rightarrow> ustring" where
  \<comment> \<open>\<^verbatim>\<open>s.zfill(2)\<close> on a string of digits (no sign to step over)\<close>
  "zfill2 s = replicate (2 - length s) (Ch CHR ''0'') @ s"

fun digits_of :: "nat \<Rightarrow> ustring" where
  \<comment> \<open>the decimal digits of a natural number, the leading digit first\<close>
  "digits_of n =
     (if n < 10 then [py ''0123456789'' ! n]
      else digits_of (n div 10) @ [py ''0123456789'' ! (n mod 10)])"

declare digits_of.simps [simp del]

definition int_str :: "int \<Rightarrow> ustring" where
  \<comment> \<open>\<^verbatim>\<open>str\<close> of an \<^verbatim>\<open>int\<close>\<close>
  "int_str i = (if i < 0 then (Ch CHR ''-'') # digits_of (nat (- i)) else digits_of (nat i))"

fun digit_value :: "uchar \<Rightarrow> nat" where
  "digit_value (Ch c) = of_char c - 48"
| "digit_value _ = 0"

fun digits_value :: "ustring \<Rightarrow> nat" where
  \<comment> \<open>\<^verbatim>\<open>int(s)\<close> on a string of digits, read from the right end of the reversed string\<close>
  "digits_value [] = 0"
| "digits_value (c # cs) = digit_value c + 10 * digits_value cs"

definition int_of_digits :: "ustring \<Rightarrow> nat" where
  "int_of_digits s = digits_value (rev s)"

definition dollar :: "(ustring \<Rightarrow> bool) \<Rightarrow> ustring \<Rightarrow> bool" where
  \<comment> \<open>the anchor \<^verbatim>\<open>$\<close> closing a pattern \<^verbatim>\<open>^p$\<close>: the end of the string, or the place
      before one newline that ends the string\<close>
  "dollar p s = (p s \<or> (s \<noteq> [] \<and> last s = Ch (CHR 0x0A) \<and> p (butlast s)))"

fun py_str :: "runtime \<Rightarrow> cell \<Rightarrow> ustring" where
  \<comment> \<open>\<^verbatim>\<open>str(value)\<close>; every caller has excluded the absent cell before, which is \<^verbatim>\<open>NaN\<close>
      in a column read by pandas\<close>
  "py_str rt Null = py ''nan''"
| "py_str rt (Str s) = s"
| "py_str rt (PyInt i) = int_str i"
| "py_str rt (PyFloat r) = float_str rt r"

subsection \<open>The cleaning log\<close>

datatype issue_kind =
  ambiguous_date | invalid_format | not_numeric | placeholder_value | out_of_range | invalid_email

text \<open>
  The hints are Chinese string literals of the source, outside the alphabet of the
  model; each literal is a constructor, and the two f-strings carry what they
  interpolate: \<open>Hint_ambiguous p1 p2\<close> is the text saying "maybe month \<open>p1\<close> day
  \<open>p2\<close>, or month \<open>p2\<close> day \<open>p1\<close>", \<open>Hint_placeholder raw_str\<close> the text saying
  "recognised as a placeholder: \<open>raw_str\<close>". The last four are the hints that
  \<^verbatim>\<open>clean_numeric\<close> hands to \<^verbatim>\<open>add_log\<close>.
\<close>

datatype hint_text =
  Hint_ambiguous ustring ustring | Hint_date_formats | Hint_email_incomplete
  | Hint_placeholder ustring | Hint_not_parsable | Hint_below_minimum | Hint_above_maximum

record log_entry =
  row :: nat
  column :: ustring
  raw :: cell
  cleaned :: cell
  issue :: issue_kind
  rule :: "ustring option"
  hint :: hint_text

type_synonym cleaning_log = "log_entry list"

section \<open>\<^verbatim>\<open>DataCleaner.clean_email\<close>\<close>

definition not_space_at :: "uchar \<Rightarrow> bool" where
  \<comment> \<open>the class \<^verbatim>\<open>[^\s@]\<close>\<close>
  "not_space_at c = (\<not> is_space c \<and> c \<noteq> Ch CHR ''@'')"

definition email_shape :: "ustring \<Rightarrow> bool" where
  \<comment> \<open>\<^verbatim>\<open>[^\s@]+@[^\s@]+\.[^\s@]+\<close> on the whole string. The first run cannot contain
      \<^verbatim>\<open>@\<close>, so it is the longest prefix of the class; the rest after the \<^verbatim>\<open>@\<close> lies in the
      class and has a dot that is neither its first nor its last character.\<close>
  "email_shape s =
     (let l = takeWhile not_space_at s; r = dropWhile not_space_at s
      in l \<noteq> [] \<and> r \<noteq> [] \<and> hd r = Ch CHR ''@'' \<and>
         (let d = tl r in list_all not_space_at d \<and> Ch CHR ''.'' \<in> set (butlast (tl d))))"

definition email_pattern :: "ustring \<Rightarrow> bool" where
  \<comment> \<open>\<^verbatim>\<open>re.match(r'^[^\s@]+@[^\s@]+\.[^\s@]+$', email)\<close>\<close>
  "email_pattern s = dollar email_shape s"

definition repair_email :: "ustring \<Rightarrow> ustring" where
  \<comment> \<open>\<^verbatim>\<open>str(value).strip().lower()\<close>, then \<^verbatim>\<open>.replace('#', '@')\<close> and the replace of U+FF20
      by \<^verbatim>\<open>@\<close>\<close>
  "repair_email s =
     py_replace Fullwidth_At (Ch CHR ''@'') (py_replace (Ch CHR ''#'') (Ch CHR ''@'')
       (py_lower (py_strip s)))"

definition clean_email ::
  "runtime \<Rightarrow> cell \<Rightarrow> nat \<Rightarrow> ustring \<Rightarrow> cleaning_log \<Rightarrow> cell \<times> cleaning_log" where
  "clean_email rt v row_idx col_name lg =
     (if v = Null then (v, lg)
      else
        let email = repair_email (py_str rt v)
        in if \<not> email_pattern email
           then (Str email,
                 lg @ [\<lparr>row = row_idx + 1, column = col_name, raw = v, cleaned = Str email,
                         issue = invalid_email, rule = Some (py ''valid_email_format''),
                         hint = Hint_email_incomplete\<rparr>])
           else (Str email, lg))"

section \<open>\<^verbatim>\<open>DataCleaner.clean_date\<close>\<close>

definition date_groups :: "(uchar \<Rightarrow> bool) \<Rightarrow> ustring \<Rightarrow> (ustring \<times> ustring \<times> ustring) option" where
  \<comment> \<open>the common frame \<^verbatim>\<open>^(\d..)S(\d..)S(\d..)$\<close> of the three date patterns, \<open>sep\<close> being
      the separator class \<^verbatim>\<open>S\<close>. A separator is no digit, so each group is a whole run of
      digits; the third run reaches the end of the string or the newline that ends it.
      The caller checks the lengths of the three runs.\<close>
  "date_groups sep s =
     (let a = takeWhile is_digit s; r = dropWhile is_digit s
      in if r \<noteq> [] \<and> sep (hd r)
         then let b = takeWhile is_digit (tl r); r2 = dropWhile is_digit (tl r)
              in if r2 \<noteq> [] \<and> sep (hd r2)
                 then let c = tl r2;
                          c' = (if c \<noteq> [] \<and> last c = Ch (CHR 0x0A) then butlast c else c)
                      in if list_all is_digit c' then Some (a, b, c') else None
                 else None
         else None)"

definition dash_slash :: "uchar \<Rightarrow> bool" where
  \<comment> \<open>the class \<^verbatim>\<open>[-/]\<close>\<close>
  "dash_slash c = (c = Ch CHR ''-'' \<or> c = Ch CHR ''/'')"

definition one_or_two :: "ustring \<Rightarrow> bool" where
  \<comment> \<open>the counts \<^verbatim>\<open>{1,2}\<close>\<close>
  "one_or_two g = (length g = 1 \<or> length g = 2)"

definition match_ymd :: "ustring \<Rightarrow> (ustring \<times> ustring \<times> ustring) option" where
  \<comment> \<open>\<^verbatim>\<open>re.match(r'^(\d{4})[-/](\d{1,2})[-/](\d{1,2})$', s)\<close> and its groups\<close>
  "match_ymd s =
     (case date_groups dash_slash s of
        Some (y, m, d) \<Rightarrow>
          if length y = 4 \<and> one_or_two m \<and> one_or_two d then Some (y, m, d) else None
      | None \<Rightarrow> None)"

definition match_dmy :: "ustring \<Rightarrow> (ustring \<times> ustring \<times> ustring) option" where
  \<comment> \<open>\<^verbatim>\<open>re.match(r'^(\d{1,2})[-/](\d{1,2})[-/](\d{4})$', s)\<close> and its groups\<close>
  "match_dmy s =
     (case date_groups dash_slash s of
        Some (p1, p2, year) \<Rightarrow>
          if one_or_two p1 \<and> one_or_two p2 \<and> length year = 4 then Some (p1, p2, year) else None
      | None \<Rightarrow> None)"

definition match_dot :: "ustring \<Rightarrow> (ustring \<times> ustring \<times> ustring) option" where
  \<comment> \<open>\<^verbatim>\<open>re.match(r'^(\d{4})\.(\d{1,2})\.(\d{1,2})$', s)\<close> and its groups\<close>
  "match_dot s =
     (case date_groups (\<lambda>c. c = Ch CHR ''.'') s of
        Some (y, m, d) \<Rightarrow>
          if length y = 4 \<and> one_or_two m \<and> one_or_two d then Some (y, m, d) else None
      | None \<Rightarrow> None)"

definition iso_date :: "ustring \<Rightarrow> ustring \<Rightarrow> ustring \<Rightarrow> ustring" where
  \<comment> \<open>the f-string \<^verbatim>\<open>f"{y}-{m.zfill(2)}-{d.zfill(2)}"\<close>\<close>
  "iso_date y m d = y @ py ''-'' @ zfill2 m @ py ''-'' @ zfill2 d"

definition clean_date ::
  "runtime \<Rightarrow> cell \<Rightarrow> nat \<Rightarrow> ustring \<Rightarrow> cleaning_log \<Rightarrow> cell \<times> cleaning_log" where
  "clean_date rt v row_idx col_name lg =
     (if v = Null then (v, lg)
      else
        let str_val = py_lower (py_strip (py_str rt v))
        in if str_val = py ''yesterday'' then (Str (yesterday_iso rt), lg)
           else if str_val = py ''today'' then (Str (today_iso rt), lg)
           else
             case match_ymd str_val of
               Some (y, m, d) \<Rightarrow> (Str (iso_date y m d), lg)
             | None \<Rightarrow>
                (case match_dmy str_val of
                   Some (p1, p2, year) \<Rightarrow>
                     if int_of_digits p1 \<le> 12 \<and> int_of_digits p2 \<le> 12
                     then (Str (iso_date year p1 p2),
                           lg @ [\<lparr>row = row_idx + 1, column = col_name, raw = v,
                                   cleaned = Str (iso_date year p1 p2),
                                   issue = ambiguous_date, rule = None,
                                   hint = Hint_ambiguous p1 p2\<rparr>])
                     else
                       let month = (if int_of_digits p1 \<le> 12 then p1 else p2);
                           day = (if int_of_digits p1 \<le> 12 then p2 else p1)
                       in (Str (iso_date year month day), lg)
                 | None \<Rightarrow>
                    (case match_dot str_val of
                       Some (y, m, d) \<Rightarrow> (Str (iso_date y m d), lg)
                     | None \<Rightarrow>
                        (v, lg @ [\<lparr>row = row_idx + 1, column = col_name, raw = v,
                                     cleaned = Null, issue = invalid_format,
                                     rule = Some (py ''valid_date_format''),
                                     hint = Hint_date_formats\<rparr>]))))"

section \<open>\<^verbatim>\<open>DataCleaner.clean_numeric\<close>\<close>

text \<open>
  The class \<^verbatim>\<open>DataCleaner\<close> has no base class and defines \<^verbatim>\<open>__init__\<close>, \<^verbatim>\<open>clean_date\<close>,
  \<^verbatim>\<open>clean_numeric\<close>, \<^verbatim>\<open>clean_email\<close> and \<^verbatim>\<open>clean_dataframe\<close>; \<^verbatim>\<open>__init__\<close> sets the attributes
  \<^verbatim>\<open>cleaning_log\<close> and \<^verbatim>\<open>rules\<close>. The four calls \<^verbatim>\<open>self.add_log(...)\<close> of \<^verbatim>\<open>clean_numeric\<close>
  therefore look up an attribute that no object of the class has: Python raises
  \<^verbatim>\<open>AttributeError\<close> at the lookup, before an argument is evaluated and outside the
  \<^verbatim>\<open>try\<close> block (whose handler catches \<^verbatim>\<open>ValueError\<close> and \<^verbatim>\<open>TypeError\<close> only, and itself
  holds one of the calls). Nothing in \<^verbatim>\<open>clean_dataframe\<close> catches it.
\<close>

datatype error = AttributeError

definition add_log ::
  "nat \<Rightarrow> ustring \<Rightarrow> ustring \<Rightarrow> cell \<Rightarrow> issue_kind \<Rightarrow> hint_text \<Rightarrow> cleaning_log \<Rightarrow>
   error + cleaning_log" where
  \<comment> \<open>a call \<^verbatim>\<open>self.add_log(row_idx, col_name, raw_str, None, issue, hint)\<close>\<close>
  "add_log row_idx col_name raw_str cleaned_value issue_type hint_msg lg = Inl AttributeError"

type_synonym range_rules = "(ustring \<times> rat option \<times> rat option) list"

definition default_rules :: range_rules where
  \<comment> \<open>\<^verbatim>\<open>self.rules\<close> as \<^verbatim>\<open>__init__\<close> sets it, in the order of the dict; each rule has both
      keys \<^verbatim>\<open>min\<close> and \<^verbatim>\<open>max\<close>\<close>
  "default_rules =
     [(py ''age'', Some 0, Some 120),
      (py ''salary'', Some 0, Some 10000000),
      (py ''price'', Some 0, Some 1000000),
      (py ''quantity'', Some 0, Some 100000)]"

definition null_keywords :: "ustring list" where
  "null_keywords =
     [py ''unknown'', py ''not a number'', py ''not_a_number'', py ''nan'', py ''n/a'', py ''?'', py ''none'',
      py ''null'', py ''-'', py ''undefined'']"

definition strip_currency :: "ustring \<Rightarrow> ustring" where
  \<comment> \<open>\<^verbatim>\<open>str_val.replace('$', '')\<close>, then the same for U+FFE5, then \<^verbatim>\<open>.replace(',', '')\<close>\<close>
  "strip_currency str_val =
     py_remove (Ch CHR '','') (py_remove Fullwidth_Yen (py_remove (Ch CHR ''$'') str_val))"

definition match_unsigned :: "ustring \<Rightarrow> ustring option" where
  \<comment> \<open>\<^verbatim>\<open>\d*\.?\d+\<close> at the start of \<open>t\<close>, as the backtracking matcher finds it: the whole
      run of digits, then a dot with the whole run of digits behind it if there is one;
      failing that, \<^verbatim>\<open>\d*\<close> gives its last digit back to \<^verbatim>\<open>\d+\<close> and the match is the
      first run alone\<close>
  "match_unsigned t =
     (let ds = takeWhile is_digit t; r = dropWhile is_digit t; fr = takeWhile is_digit (tl r)
      in if r \<noteq> [] \<and> hd r = Ch CHR ''.'' \<and> fr \<noteq> [] then Some (ds @ (Ch CHR ''.'') # fr)
         else if ds \<noteq> [] then Some ds
         else None)"

definition match_number_here :: "ustring \<Rightarrow> ustring option" where
  \<comment> \<open>\<^verbatim>\<open>[-+]?\d*\.?\d+\<close> at the start of \<open>s\<close>: with the sign first, without it second\<close>
  "match_number_here s =
     (if s \<noteq> [] \<and> (hd s = Ch CHR ''-'' \<or> hd s = Ch CHR ''+'')
      then (case match_unsigned (tl s) of
              Some m \<Rightarrow> Some (hd s # m)
            | None \<Rightarrow> match_unsigned s)
      else match_unsigned s)"

fun search_number :: "ustring \<Rightarrow> ustring option" where
  \<comment> \<open>\<^verbatim>\<open>re.search(r'[-+]?\d*\.?\d+', s)\<close>: the match at the leftmost position that has one\<close>
  "search_number [] = match_number_here []"
| "search_number (c # cs) =
     (case match_number_here (c # cs) of
        Some m \<Rightarrow> Some m
      | None \<Rightarrow> search_number cs)"

definition float_of_token :: "ustring \<Rightarrow> rat" where
  \<comment> \<open>\<^verbatim>\<open>float(tok)\<close> for a token of the pattern above, which \<^verbatim>\<open>float\<close> always accepts: the
      number the decimal denotes\<close>
  "float_of_token tok =
     (let neg = (tok \<noteq> [] \<and> hd tok = Ch CHR ''-'');
          u = (if tok \<noteq> [] \<and> (hd tok = Ch CHR ''-'' \<or> hd tok = Ch CHR ''+'') then tl tok else tok);
          ip = takeWhile is_digit u;
          fp = tl (dropWhile is_digit u);
          m = of_nat (int_of_digits ip) + of_nat (int_of_digits fp) / 10 ^ length fp
      in if neg then - m else m)"

fun check_rules ::
  "range_rules \<Rightarrow> nat \<Rightarrow> ustring \<Rightarrow> ustring \<Rightarrow> rat \<Rightarrow> cleaning_log \<Rightarrow> error + (cell \<times> cleaning_log)"
  where
  \<comment> \<open>the loop over \<^verbatim>\<open>self.rules.items()\<close> and the final \<^verbatim>\<open>return num\<close>\<close>
  "check_rules [] row_idx col_name raw_str num lg = Inr (PyFloat num, lg)"
| "check_rules ((rule_key, rmin, rmax) # rest) row_idx col_name raw_str num lg =
     (if py_in rule_key (py_lower col_name)
      then
        if (case rmin of Some lo \<Rightarrow> num < lo | None \<Rightarrow> False)
        then (case add_log row_idx col_name raw_str Null out_of_range Hint_below_minimum lg of
                Inl e \<Rightarrow> Inl e
              | Inr lg' \<Rightarrow> Inr (Null, lg'))
        else if (case rmax of Some hi \<Rightarrow> num > hi | None \<Rightarrow> False)
        then (case add_log row_idx col_name raw_str Null out_of_range Hint_above_maximum lg of
                Inl e \<Rightarrow> Inl e
              | Inr lg' \<Rightarrow> Inr (Null, lg'))
        else check_rules rest row_idx col_name raw_str num lg
      else check_rules rest row_idx col_name raw_str num lg)"

definition clean_numeric ::
  "runtime \<Rightarrow> range_rules \<Rightarrow> cell \<Rightarrow> nat \<Rightarrow> ustring \<Rightarrow> cleaning_log \<Rightarrow>
   error + (cell \<times> cleaning_log)" where
  "clean_numeric rt rules v row_idx col_name lg =
     (if v = Null \<or> py_strip (py_str rt v) = [] then Inr (Null, lg)
      else
        let raw_str = py_strip (py_str rt v);
            str_val = py_lower raw_str
        in if str_val \<in> set null_keywords
           then (case add_log row_idx col_name raw_str Null placeholder_value
                        (Hint_placeholder raw_str) lg of
                   Inl e \<Rightarrow> Inl e
                 | Inr lg' \<Rightarrow> Inr (Null, lg'))
           else
             let temp_val = strip_currency str_val
             in case search_number temp_val of
                  None \<Rightarrow>
                    (case add_log row_idx col_name raw_str Null not_numeric Hint_not_parsable lg of
                       Inl e \<Rightarrow> Inl e
                     | Inr lg' \<Rightarrow> Inr (Null, lg'))
                | Some tok \<Rightarrow>
                    check_rules rules row_idx col_name raw_str (float_of_token tok) lg)"

section \<open>\<^verbatim>\<open>DataCleaner.clean_dataframe\<close>\<close>

text \<open>
  A DataFrame is the list of its columns in order, each a name with its cells. The model
  is of frames whose column names are distinct, which \<^verbatim>\<open>df[col]\<close> being one column
  requires: there \<^verbatim>\<open>df_cleaned[col] = ...\<close> replaces the column at the place of \<^verbatim>\<open>col\<close>,
  and the loop over \<^verbatim>\<open>df.columns\<close> builds the cleaned frame column by column.

  In the source the three statements that treat a \<^verbatim>\<open>number\<close> column stand at the depth
  of their \<^verbatim>\<open>if f_type == 'number':\<close> line, between it and the \<^verbatim>\<open>elif\<close>; they are read as
  the body of that branch, the only reading under which the \<^verbatim>\<open>elif\<close> lines have an
  \<^verbatim>\<open>if\<close> to belong to.
\<close>

type_synonym table = "(ustring \<times> cell list) list"

datatype field_type = Text | Number | Date | Email | Boolean

definition pd_to_numeric :: "runtime \<Rightarrow> cell \<Rightarrow> cell" where
  \<comment> \<open>one cell under \<^verbatim>\<open>pd.to_numeric(..., errors='coerce')\<close>: a number stays, a string is
      parsed or becomes \<^verbatim>\<open>NaN\<close>, an absent cell stays absent\<close>
  "pd_to_numeric rt c =
     (case c of
        Str s \<Rightarrow> (case to_numeric_str rt s of None \<Rightarrow> Null | Some r \<Rightarrow> PyFloat r)
      | _ \<Rightarrow> c)"

fun clean_numeric_list ::
  "runtime \<Rightarrow> range_rules \<Rightarrow> ustring \<Rightarrow> nat \<Rightarrow> cell list \<Rightarrow> cleaning_log \<Rightarrow>
   error + (cell list \<times> cleaning_log)" where
  \<comment> \<open>\<^verbatim>\<open>[self.clean_numeric(val, i, col) for i, val in enumerate(df[col])]\<close>, from index
      \<open>i\<close> on; the first exception ends the comprehension\<close>
  "clean_numeric_list rt rules col i [] lg = Inr ([], lg)"
| "clean_numeric_list rt rules col i (val # vals) lg =
     (case clean_numeric rt rules val i col lg of
        Inl e \<Rightarrow> Inl e
      | Inr (c, lg') \<Rightarrow>
          (case clean_numeric_list rt rules col (Suc i) vals lg' of
             Inl e \<Rightarrow> Inl e
           | Inr (cs, lg'') \<Rightarrow> Inr (c # cs, lg'')))"

fun series_apply ::
  "(cell \<Rightarrow> cleaning_log \<Rightarrow> cell \<times> cleaning_log) \<Rightarrow> cell list \<Rightarrow> cleaning_log \<Rightarrow>
   cell list \<times> cleaning_log" where
  \<comment> \<open>\<^verbatim>\<open>df[col].apply(f)\<close> for an \<open>f\<close> that appends to the log: cell after cell, in order\<close>
  "series_apply f [] lg = ([], lg)"
| "series_apply f (x # xs) lg =
     (let (c, lg') = f x lg; (cs, lg'') = series_apply f xs lg' in (c # cs, lg''))"

definition clean_column ::
  "runtime \<Rightarrow> range_rules \<Rightarrow> (ustring \<rightharpoonup> field_type) \<Rightarrow> ustring \<Rightarrow> cell list \<Rightarrow> cleaning_log \<Rightarrow>
   error + (cell list \<times> cleaning_log)" where
  \<comment> \<open>one turn of the loop \<^verbatim>\<open>for col in df.columns\<close>: the cells of \<^verbatim>\<open>df_cleaned[col]\<close> after it\<close>
  "clean_column rt rules field_types col cells lg =
     (case field_types col of
        None \<Rightarrow> Inr (cells, lg)
      | Some Number \<Rightarrow>
          (case clean_numeric_list rt rules col 0 cells lg of
             Inl e \<Rightarrow> Inl e
           | Inr (cleaned_list, lg') \<Rightarrow> Inr (map (pd_to_numeric rt) cleaned_list, lg'))
      | Some Email \<Rightarrow> Inr (series_apply (\<lambda>x. clean_email rt x 0 col) cells lg)
      | Some Date \<Rightarrow> Inr (series_apply (\<lambda>x. clean_date rt x 0 col) cells lg)
      | Some _ \<Rightarrow> Inr (cells, lg))"

fun clean_columns ::
  "runtime \<Rightarrow> range_rules \<Rightarrow> (ustring \<rightharpoonup> field_type) \<Rightarrow> table \<Rightarrow> cleaning_log \<Rightarrow>
   error + (table \<times> cleaning_log)" where
  "clean_columns rt rules field_types [] lg = Inr ([], lg)"
| "clean_columns rt rules field_types ((col, cells) # rest) lg =
     (case clean_column rt rules field_types col cells lg of
        Inl e \<Rightarrow> Inl e
      | Inr (cells', lg') \<Rightarrow>
          (case clean_columns rt rules field_types rest lg' of
             Inl e \<Rightarrow> Inl e
           | Inr (rest', lg'') \<Rightarrow> Inr ((col, cells') # rest', lg'')))"

definition salary_pass :: "runtime \<Rightarrow> table \<Rightarrow> table" where
  \<comment> \<open>the closing loop: every column of \<^verbatim>\<open>df_cleaned\<close> with \<^verbatim>\<open>'salary' in col.lower()\<close> goes
      through \<^verbatim>\<open>pd.to_numeric(..., errors='coerce')\<close>\<close>
  "salary_pass rt df =
     map (\<lambda>(col, cells).
            if py_in (py ''salary'') (py_lower col) then (col, map (pd_to_numeric rt) cells)
            else (col, cells)) df"

definition clean_dataframe ::
  "runtime \<Rightarrow> range_rules \<Rightarrow> table \<Rightarrow> (ustring \<rightharpoonup> field_type) \<Rightarrow>
   error + (table \<times> table \<times> cleaning_log)" where
  \<comment> \<open>the result is \<^verbatim>\<open>(df_cleaned, df_original, self.cleaning_log)\<close>; the log starts empty\<close>
  "clean_dataframe rt rules df field_types =
     (case clean_columns rt rules field_types df [] of
        Inl e \<Rightarrow> Inl e
      | Inr (df_cleaned, lg) \<Rightarrow> Inr (salary_pass rt df_cleaned, df, lg))"

section \<open>\<^verbatim>\<open>FieldTypeDetector.detect_type\<close>\<close>

text \<open>
  The three fractions are compared with their thresholds as rational numbers. Python
  compares the nearest doubles; the two agree unless a column has more than
  \<open>10\<^sup>1\<^sup>5\<close> cells.
\<close>

definition count_where :: "('a \<Rightarrow> bool) \<Rightarrow> 'a list \<Rightarrow> nat" where
  \<comment> \<open>\<^verbatim>\<open>.sum()\<close> of a Boolean series\<close>
  "count_where p xs = length (filter p xs)"

definition fraction :: "nat \<Rightarrow> nat \<Rightarrow> rat" where
  "fraction k n = of_nat k / of_nat n"

definition dropna :: "cell list \<Rightarrow> cell list" where
  "dropna series = filter (\<lambda>c. c \<noteq> Null) series"

definition numeric_count :: "runtime \<Rightarrow> cell list \<Rightarrow> nat" where
  \<comment> \<open>\<^verbatim>\<open>pd.to_numeric(non_null, errors='coerce').notna().sum()\<close>\<close>
  "numeric_count rt non_null = count_where (\<lambda>c. pd_to_numeric rt c \<noteq> Null) non_null"

definition date_count :: "runtime \<Rightarrow> cell list \<Rightarrow> nat" where
  \<comment> \<open>the sum, over the three patterns, of the cells whose \<^verbatim>\<open>str\<close> matches the pattern\<close>
  "date_count rt non_null =
     count_where (\<lambda>c. match_ymd (py_str rt c) \<noteq> None) non_null +
     count_where (\<lambda>c. match_dmy (py_str rt c) \<noteq> None) non_null +
     count_where (\<lambda>c. match_dot (py_str rt c) \<noteq> None) non_null"

definition is_alpha :: "uchar \<Rightarrow> bool" where
  \<comment> \<open>the class \<^verbatim>\<open>[a-zA-Z]\<close>\<close>
  "is_alpha c = (c \<in> set (py ''abcdefghijklmnopqrstuvwxyzABCDEFGHIJKLMNOPQRSTUVWXYZ''))"

definition local_char :: "uchar \<Rightarrow> bool" where
  \<comment> \<open>the class \<^verbatim>\<open>[a-zA-Z0-9._%+-]\<close>\<close>
  "local_char c = (is_alpha c \<or> is_digit c \<or> c \<in> set (py ''._%+-''))"

definition domain_char :: "uchar \<Rightarrow> bool" where
  \<comment> \<open>the class \<^verbatim>\<open>[a-zA-Z0-9.-]\<close>\<close>
  "domain_char c = (is_alpha c \<or> is_digit c \<or> c \<in> set (py ''.-''))"

fun dot_two_letters :: "ustring \<Rightarrow> bool" where
  \<comment> \<open>somewhere in the string: a dot and two letters behind it\<close>
  "dot_two_letters (a # b # c # rest) =
     ((a = Ch CHR ''.'' \<and> is_alpha b \<and> is_alpha c) \<or> dot_two_letters (b # c # rest))"
| "dot_two_letters _ = False"

definition email_like_pattern :: "ustring \<Rightarrow> bool" where
  \<comment> \<open>\<^verbatim>\<open>re.match(r'[a-zA-Z0-9._%+-]+[@#][a-zA-Z0-9.-]+\.[a-zA-Z]{2,}', s)\<close>, a match of a
      prefix: the longest run of the first class, \<^verbatim>\<open>@\<close> or \<^verbatim>\<open>#\<close>, and in the run of the
      second class that follows, after its first character, a dot with two letters\<close>
  "email_like_pattern s =
     (let l = takeWhile local_char s; r = dropWhile local_char s
      in l \<noteq> [] \<and> r \<noteq> [] \<and> (hd r = Ch CHR ''@'' \<or> hd r = Ch CHR ''#'') \<and>
         (let m = takeWhile domain_char (tl r) in m \<noteq> [] \<and> dot_two_letters (tl m)))"

definition email_hits :: "cell list \<Rightarrow> nat" where
  \<comment> \<open>\<^verbatim>\<open>non_null.str.match(email_like_pattern).sum()\<close>: \<^verbatim>\<open>.str.match\<close> gives \<^verbatim>\<open>NaN\<close> for a cell
      that is no string, which the sum skips\<close>
  "email_hits non_null =
     count_where (\<lambda>c. case c of Str s \<Rightarrow> email_like_pattern s | _ \<Rightarrow> False) non_null"

definition bool_values :: "ustring list" where
  "bool_values = [py ''true'', py ''false'', py ''yes'', py ''no'', py ''1'', py ''0'', py ''y'', py ''n'', py ''T'', py ''F'']"

definition bool_count :: "runtime \<Rightarrow> cell list \<Rightarrow> nat" where
  "bool_count rt non_null =
     count_where (\<lambda>c. py_lower (py_str rt c) \<in> set bool_values) non_null"

definition numeric_crossed :: "runtime \<Rightarrow> cell list \<Rightarrow> bool" where
  \<comment> \<open>\<^verbatim>\<open>numeric_count / len(non_null) > 0.8\<close>\<close>
  "numeric_crossed rt non_null =
     (fraction (numeric_count rt non_null) (length non_null) > 8 / 10)"

definition date_crossed :: "runtime \<Rightarrow> cell list \<Rightarrow> bool" where
  \<comment> \<open>\<^verbatim>\<open>date_count / len(non_null) > 0.7\<close>\<close>
  "date_crossed rt non_null =
     (fraction (date_count rt non_null) (length non_null) > 7 / 10)"

definition name_has_mail :: "ustring \<Rightarrow> bool" where
  \<comment> \<open>\<^verbatim>\<open>'email' in series.name.lower() or 'mail' in series.name.lower()\<close>\<close>
  "name_has_mail name = (py_in (py ''email'') (py_lower name) \<or> py_in (py ''mail'') (py_lower name))"

definition detect_type :: "runtime \<Rightarrow> ustring \<Rightarrow> cell list \<Rightarrow> field_type" where
  \<comment> \<open>\<open>name\<close> is \<^verbatim>\<open>series.name\<close>, \<open>series\<close> the cells\<close>
  "detect_type rt name series =
     (let non_null = dropna series
      in if length non_null = 0 then Text
         else if numeric_crossed rt non_null then Number
         else if date_crossed rt non_null then Date
         else if name_has_mail name then Email
         else if fraction (email_hits non_null) (length non_null) > 6 / 10 then Email
         else if fraction (bool_count rt non_null) (length non_null) > 8 / 10 then Boolean
         else Text)"

section \<open>A runtime for the closed examples\<close>

definition plain_decimal :: "ustring \<Rightarrow> rat option" where
  \<comment> \<open>accepts the strings that are one plain decimal literal, with or without sign,
      and nothing else; \<^verbatim>\<open>pd.to_numeric\<close> accepts these among others\<close>
  "plain_decimal s = (if match_number_here s = Some s then Some (float_of_token s) else None)"

definition sample_runtime :: runtime where
  \<comment> \<open>the clock reads 2 May 2024; an integral float prints with \<^verbatim>\<open>.0\<close>\<close>
  "sample_runtime =
     \<lparr>today_iso = py ''2024-05-02'', yesterday_iso = py ''2024-05-01'',
      float_str = (\<lambda>r. int_str \<lfloor>r\<rfloor> @ py ''.0''),
      to_numeric_str = plain_decimal\<rparr>"

definition date_reading_runtime :: runtime where
  \<comment> \<open>a second runtime, for a column of dates that pandas has parsed (dtype
      \<^verbatim>\<open>datetime64\<close>): \<^verbatim>\<open>pd.to_numeric\<close> gives every such cell a number and \<^verbatim>\<open>astype(str)\<close>
      gives its ISO date. A cell of such a column is written as the text of its date, and
      \<^verbatim>\<open>pd.to_numeric\<close> reads a year-first date as a number; \<^verbatim>\<open>detect_type\<close> looks only at
      whether there is a number, so the number is 0 here\<close>
  "date_reading_runtime =
     sample_runtime\<lparr>to_numeric_str :=
       (\<lambda>s. if match_ymd s \<noteq> None then Some 0 else plain_decimal s)\<rparr>"

definition mixed_table :: table where
  \<comment> \<open>two columns without a type and two with the type \<^verbatim>\<open>email\<close>; one of each has
      \<^verbatim>\<open>salary\<close> in its lower-cased name\<close>
  "mixed_table =
     [(py ''name'', [Str (py ''Zhang San''), Str (py ''Li Si'')]),
      (py ''email'', [Str (py ''zhang#example.com''), Str (py ''lisi@example'')]),
      (py ''Base_Salary'', [Str (py ''abc''), Str (py ''12'')]),
      (py ''salary_contact'', [Str (py ''li#corp.cn''), Str (py ''15'')])]"

definition mixed_types :: "ustring \<rightharpoonup> field_type" where
  "mixed_types = [py ''email'' \<mapsto> Email, py ''salary_contact'' \<mapsto> Email]"

section \<open>Auxiliary notions for the proofs\<close>

definition stripped :: "ustring \<Rightarrow> bool" where
  \<comment> \<open>no white space at either end\<close>
  "stripped x = (x = [] \<or> (\<not> is_space (hd x) \<and> \<not> is_space (last x)))"

definition first_row_of :: "ustring \<Rightarrow> log_entry \<Rightarrow> bool" where
  \<comment> \<open>a log entry that names row 1 of the column\<close>
  "first_row_of col e = (row e = 1 \<and> column e = col)"

section \<open>Properties of the pattern matchers\<close>

lemma py_eq_iff [simp]: "py s = py t \<longleftrightarrow> s = t"
  by (simp add: py_def inj_map_eq_map inj_def)

lemma py_Nil [simp]: "py s = [] \<longleftrightarrow> s = []" "[] = py s \<longleftrightarrow> s = []"
  by (auto simp add: py_def)

text \<open>
  Each matcher of the date patterns and of the email pattern accepts exactly the strings
  of its regular expression, written out as a decomposition of the string; \<open>e\<close> is
  the newline that \<^verbatim>\<open>$\<close> allows at the end.
\<close>

lemma last_dropWhile: "dropWhile P xs \<noteq> [] \<Longrightarrow> last (dropWhile P xs) = last xs"
  by (induction xs) (auto split: if_splits)

lemma dropWhile_keep: "xs \<noteq> [] \<Longrightarrow> \<not> P (hd xs) \<Longrightarrow> dropWhile P xs = xs"
  by (cases xs) simp_all

lemma run_then_stop:
  "list_all P xs \<Longrightarrow> \<not> P y \<Longrightarrow>
   takeWhile P (xs @ y # ys) = xs \<and> dropWhile P (xs @ y # ys) = y # ys"
  by (induction xs) simp_all

lemma run_to_end: "list_all P xs \<Longrightarrow> takeWhile P xs = xs \<and> dropWhile P xs = []"
  by (induction xs) simp_all

lemma list_all_takeWhile: "list_all P (takeWhile P xs)"
  by (induction xs) simp_all

lemma newline_no_digit: "\<not> is_digit (Ch (CHR 0x0A))"
  by (simp add: is_digit_def py_def)

lemma digits_no_final_newline:
  assumes "list_all is_digit c"
  shows "\<not> (c \<noteq> [] \<and> last c = Ch (CHR 0x0A))"
proof
  assume a: "c \<noteq> [] \<and> last c = Ch (CHR 0x0A)"
  then have "last c \<in> set c" using last_in_set[of c] by blast
  with assms have "is_digit (last c)" by (simp add: list_all_iff)
  with a newline_no_digit show False by simp
qed

lemma date_groups_complete:
  assumes sep: "\<And>x. sep x \<Longrightarrow> \<not> is_digit x"
    and s: "s = a @ x # b @ y # c @ e"
    and "sep x" "sep y" "e = [] \<or> e = [Ch (CHR 0x0A)]"
    and "list_all is_digit a" "list_all is_digit b" "list_all is_digit c"
  shows "date_groups sep s = Some (a, b, c)"
proof -
  have nx: "\<not> is_digit x" and ny: "\<not> is_digit y" using assms(3,4) sep by auto
  have 1: "takeWhile is_digit s = a" "dropWhile is_digit s = x # b @ y # c @ e"
    using run_then_stop[OF assms(6) nx] by (simp_all add: s)
  have 2: "takeWhile is_digit (b @ y # c @ e) = b" "dropWhile is_digit (b @ y # c @ e) = y # c @ e"
    using run_then_stop[OF assms(7) ny] by simp_all
  from assms(5) show ?thesis
  proof
    assume e: "e = []"
    have "date_groups sep (a @ x # b @ y # c) = Some (a, b, c)"
      using assms(3,4,8) digits_no_final_newline[OF assms(8)] 1[unfolded s e] 2[unfolded e]
      by (auto simp add: date_groups_def Let_def)
    then show ?thesis by (simp add: s e)
  next
    assume e: "e = [Ch (CHR 0x0A)]"
    have "date_groups sep (a @ x # b @ y # c @ [Ch (CHR 0x0A)]) = Some (a, b, c)"
      using assms(3,4,8) 1[unfolded s e] 2[unfolded e]
      by (simp add: date_groups_def Let_def)
    then show ?thesis by (simp add: s e)
  qed
qed

lemma date_groups_sound:
  assumes "date_groups sep s = Some (a, b, c)"
  shows "\<exists>x y e. s = a @ x # b @ y # c @ e \<and> sep x \<and> sep y \<and> (e = [] \<or> e = [Ch (CHR 0x0A)]) \<and>
           list_all is_digit a \<and> list_all is_digit b \<and> list_all is_digit c"
proof -
  define r where "r = dropWhile is_digit s"
  define r2 where "r2 = dropWhile is_digit (tl r)"
  define t where "t = tl r2"
  from assms have r: "r \<noteq> []" "sep (hd r)" and r2: "r2 \<noteq> []" "sep (hd r2)"
    and a: "a = takeWhile is_digit s" and b: "b = takeWhile is_digit (tl r)"
    and c: "c = (if t \<noteq> [] \<and> last t = Ch (CHR 0x0A) then butlast t else t)"
    and d: "list_all is_digit c"
    by (auto simp add: date_groups_def Let_def r_def r2_def t_def split: if_splits)
  have s1: "s = a @ r" by (simp add: a r_def)
  have s2: "r = hd r # b @ r2" using r(1) by (simp add: b r2_def)
  have s3: "r2 = hd r2 # t" using r2(1) by (simp add: t_def)
  obtain e where e: "t = c @ e" "e = [] \<or> e = [Ch (CHR 0x0A)]"
  proof (cases "t \<noteq> [] \<and> last t = Ch (CHR 0x0A)")
    case True
    then have "butlast t @ [last t] = t" using append_butlast_last_id[of t] by blast
    with True have "t = c @ [Ch (CHR 0x0A)]" using c by simp
    then show ?thesis using that by simp
  next
    case False
    then have "t = c @ []" using c by auto
    then show ?thesis using that by blast
  qed
  have "s = a @ hd r # b @ hd r2 # c @ e"
    using s1 s2 s3 e(1) by simp
  moreover have "list_all is_digit a" "list_all is_digit b"
    by (simp_all add: a b list_all_takeWhile)
  ultimately show ?thesis using r(2) r2(2) e(2) d by blast
qed

lemma dash_slash_no_digit: "dash_slash x \<Longrightarrow> \<not> is_digit x"
  by (auto simp add: dash_slash_def is_digit_def py_def)

lemma match_dmy_iff:
  "match_dmy s = Some (p1, p2, year) \<longleftrightarrow>
     (\<exists>x y e. s = p1 @ x # p2 @ y # year @ e \<and> dash_slash x \<and> dash_slash y \<and>
        (e = [] \<or> e = [Ch (CHR 0x0A)]) \<and>
        list_all is_digit p1 \<and> one_or_two p1 \<and> list_all is_digit p2 \<and> one_or_two p2 \<and>
        list_all is_digit year \<and> length year = 4)"
proof
  assume "match_dmy s = Some (p1, p2, year)"
  then have g: "date_groups dash_slash s = Some (p1, p2, year)"
    and l: "one_or_two p1" "one_or_two p2" "length year = 4"
    by (auto simp add: match_dmy_def split: option.splits if_splits)
  from date_groups_sound[OF g] l
  show "\<exists>x y e. s = p1 @ x # p2 @ y # year @ e \<and> dash_slash x \<and> dash_slash y \<and>
        (e = [] \<or> e = [Ch (CHR 0x0A)]) \<and>
        list_all is_digit p1 \<and> one_or_two p1 \<and> list_all is_digit p2 \<and> one_or_two p2 \<and>
        list_all is_digit year \<and> length year = 4"
    by blast
next
  assume "\<exists>x y e. s = p1 @ x # p2 @ y # year @ e \<and> dash_slash x \<and> dash_slash y \<and>
        (e = [] \<or> e = [Ch (CHR 0x0A)]) \<and>
        list_all is_digit p1 \<and> one_or_two p1 \<and> list_all is_digit p2 \<and> one_or_two p2 \<and>
        list_all is_digit year \<and> length year = 4"
  then obtain x y e where s: "s = p1 @ x # p2 @ y # year @ e" and
    h: "dash_slash x" "dash_slash y" "e = [] \<or> e = [Ch (CHR 0x0A)]"
       "list_all is_digit p1" "list_all is_digit p2" "list_all is_digit year" and
    l: "one_or_two p1" "one_or_two p2" "length year = 4"
    by blast
  have "date_groups dash_slash s = Some (p1, p2, year)"
    using dash_slash_no_digit s h by (rule date_groups_complete)
  with l show "match_dmy s = Some (p1, p2, year)"
    by (simp add: match_dmy_def)
qed

lemma match_ymd_iff:
  "match_ymd s = Some (y, m, d) \<longleftrightarrow>
     (\<exists>p q e. s = y @ p # m @ q # d @ e \<and> dash_slash p \<and> dash_slash q \<and>
        (e = [] \<or> e = [Ch (CHR 0x0A)]) \<and>
        list_all is_digit y \<and> length y = 4 \<and> list_all is_digit m \<and> one_or_two m \<and>
        list_all is_digit d \<and> one_or_two d)"
proof
  assume "match_ymd s = Some (y, m, d)"
  then have g: "date_groups dash_slash s = Some (y, m, d)"
    and l: "length y = 4" "one_or_two m" "one_or_two d"
    by (auto simp add: match_ymd_def split: option.splits if_splits)
  from date_groups_sound[OF g] l
  show "\<exists>p q e. s = y @ p # m @ q # d @ e \<and> dash_slash p \<and> dash_slash q \<and>
        (e = [] \<or> e = [Ch (CHR 0x0A)]) \<and>
        list_all is_digit y \<and> length y = 4 \<and> list_all is_digit m \<and> one_or_two m \<and>
        list_all is_digit d \<and> one_or_two d"
    by blast
next
  assume "\<exists>p q e. s = y @ p # m @ q # d @ e \<and> dash_slash p \<and> dash_slash q \<and>
        (e = [] \<or> e = [Ch (CHR 0x0A)]) \<and>
        list_all is_digit y \<and> length y = 4 \<and> list_all is_digit m \<and> one_or_two m \<and>
        list_all is_digit d \<and> one_or_two d"
  then obtain p q e where s: "s = y @ p # m @ q # d @ e" and
    h: "dash_slash p" "dash_slash q" "e = [] \<or> e = [Ch (CHR 0x0A)]"
       "list_all is_digit y" "list_all is_digit m" "list_all is_digit d" and
    l: "length y = 4" "one_or_two m" "one_or_two d"
    by blast
  have "date_groups dash_slash s = Some (y, m, d)"
    using dash_slash_no_digit s h by (rule date_groups_complete)
  with l show "match_ymd s = Some (y, m, d)"
    by (simp add: match_ymd_def)
qed

lemma match_dot_iff:
  "match_dot s = Some (y, m, d) \<longleftrightarrow>
     (\<exists>e. s = y @ (Ch CHR ''.'') # m @ (Ch CHR ''.'') # d @ e \<and> (e = [] \<or> e = [Ch (CHR 0x0A)]) \<and>
        list_all is_digit y \<and> length y = 4 \<and> list_all is_digit m \<and> one_or_two m \<and>
        list_all is_digit d \<and> one_or_two d)"
proof
  assume "match_dot s = Some (y, m, d)"
  then have g: "date_groups (\<lambda>c. c = Ch CHR ''.'') s = Some (y, m, d)"
    and l: "length y = 4" "one_or_two m" "one_or_two d"
    by (auto simp add: match_dot_def split: option.splits if_splits)
  from date_groups_sound[OF g] l
  show "\<exists>e. s = y @ (Ch CHR ''.'') # m @ (Ch CHR ''.'') # d @ e \<and> (e = [] \<or> e = [Ch (CHR 0x0A)]) \<and>
        list_all is_digit y \<and> length y = 4 \<and> list_all is_digit m \<and> one_or_two m \<and>
        list_all is_digit d \<and> one_or_two d"
    by blast
next
  assume "\<exists>e. s = y @ (Ch CHR ''.'') # m @ (Ch CHR ''.'') # d @ e \<and> (e = [] \<or> e = [Ch (CHR 0x0A)]) \<and>
        list_all is_digit y \<and> length y = 4 \<and> list_all is_digit m \<and> one_or_two m \<and>
        list_all is_digit d \<and> one_or_two d"
  then obtain e where s: "s = y @ (Ch CHR ''.'') # m @ (Ch CHR ''.'') # d @ e" and
    h: "e = [] \<or> e = [Ch (CHR 0x0A)]"
       "list_all is_digit y" "list_all is_digit m" "list_all is_digit d" and
    l: "length y = 4" "one_or_two m" "one_or_two d"
    by blast
  have n: "\<And>x. x = Ch CHR ''.'' \<Longrightarrow> \<not> is_digit x" by (simp add: is_digit_def py_def)
  have "date_groups (\<lambda>c. c = Ch CHR ''.'') s = Some (y, m, d)"
    using n s refl refl h by (rule date_groups_complete)
  with l show "match_dot s = Some (y, m, d)"
    by (simp add: match_dot_def)
qed

lemma at_dot_class: "\<not> not_space_at (Ch CHR ''@'')" "not_space_at (Ch CHR ''.'')"
  by code_simp+

lemma inner_dot_iff:
  "(Ch CHR ''.'') \<in> set (butlast (tl d)) \<longleftrightarrow>
     (\<exists>d1 d2. d = d1 @ (Ch CHR ''.'') # d2 \<and> d1 \<noteq> [] \<and> d2 \<noteq> [])"
proof
  assume a: "(Ch CHR ''.'') \<in> set (butlast (tl d))"
  then have u: "tl d \<noteq> []" by auto
  then have d: "d = hd d # tl d" by (cases d) simp_all
  from a obtain p q where pq: "butlast (tl d) = p @ (Ch CHR ''.'') # q"
    by (auto dest: split_list)
  have "tl d = butlast (tl d) @ [last (tl d)]" using u by simp
  then have "tl d = p @ (Ch CHR ''.'') # (q @ [last (tl d)])" using pq by simp
  then have "d = (hd d # p) @ (Ch CHR ''.'') # (q @ [last (tl d)])" using d by simp
  then show "\<exists>d1 d2. d = d1 @ (Ch CHR ''.'') # d2 \<and> d1 \<noteq> [] \<and> d2 \<noteq> []"
    by blast
next
  assume "\<exists>d1 d2. d = d1 @ (Ch CHR ''.'') # d2 \<and> d1 \<noteq> [] \<and> d2 \<noteq> []"
  then obtain d1 d2 where d: "d = d1 @ (Ch CHR ''.'') # d2" and n: "d1 \<noteq> []" "d2 \<noteq> []"
    by blast
  from n(1) have "tl d = tl d1 @ (Ch CHR ''.'') # d2" by (cases d1) (simp_all add: d)
  with n(2) have "butlast (tl d) = tl d1 @ (Ch CHR ''.'') # butlast d2"
    by (simp add: butlast_append)
  then show "(Ch CHR ''.'') \<in> set (butlast (tl d))" by simp
qed

lemma email_shape_iff:
  "email_shape s \<longleftrightarrow>
     (\<exists>l d1 d2. s = l @ (Ch CHR ''@'') # d1 @ (Ch CHR ''.'') # d2 \<and> l \<noteq> [] \<and> d1 \<noteq> [] \<and> d2 \<noteq> [] \<and>
        list_all not_space_at l \<and> list_all not_space_at d1 \<and> list_all not_space_at d2)"
proof
  assume a: "email_shape s"
  define l where "l = takeWhile not_space_at s"
  define r where "r = dropWhile not_space_at s"
  from a have l: "l \<noteq> []" and r: "r \<noteq> []" "hd r = Ch CHR ''@''"
    and c: "list_all not_space_at (tl r)" and i: "(Ch CHR ''.'') \<in> set (butlast (tl (tl r)))"
    by (simp_all add: email_shape_def Let_def l_def r_def)
  from i obtain d1 d2 where d: "tl r = d1 @ (Ch CHR ''.'') # d2" "d1 \<noteq> []" "d2 \<noteq> []"
    using inner_dot_iff[of "tl r"] by blast
  have "r = Ch CHR ''@'' # tl r" using r by (cases r) simp_all
  then have "r = Ch CHR ''@'' # d1 @ (Ch CHR ''.'') # d2" using d(1) by simp
  moreover have "s = l @ r" by (simp add: l_def r_def)
  ultimately have "s = l @ (Ch CHR ''@'') # d1 @ (Ch CHR ''.'') # d2" by simp
  moreover have "list_all not_space_at l" by (simp add: l_def list_all_takeWhile)
  moreover have "list_all not_space_at d1" "list_all not_space_at d2"
    using c d(1) by simp_all
  ultimately show "\<exists>l d1 d2. s = l @ (Ch CHR ''@'') # d1 @ (Ch CHR ''.'') # d2 \<and> l \<noteq> [] \<and> d1 \<noteq> [] \<and>
      d2 \<noteq> [] \<and> list_all not_space_at l \<and> list_all not_space_at d1 \<and> list_all not_space_at d2"
    using l d(2,3) by blast
next
  assume "\<exists>l d1 d2. s = l @ (Ch CHR ''@'') # d1 @ (Ch CHR ''.'') # d2 \<and> l \<noteq> [] \<and> d1 \<noteq> [] \<and>
      d2 \<noteq> [] \<and> list_all not_space_at l \<and> list_all not_space_at d1 \<and> list_all not_space_at d2"
  then obtain l d1 d2 where s: "s = l @ (Ch CHR ''@'') # d1 @ (Ch CHR ''.'') # d2"
    and n: "l \<noteq> []" "d1 \<noteq> []" "d2 \<noteq> []"
    and c: "list_all not_space_at l" "list_all not_space_at d1" "list_all not_space_at d2"
    by blast
  have t: "takeWhile not_space_at s = l"
    "dropWhile not_space_at s = Ch CHR ''@'' # d1 @ (Ch CHR ''.'') # d2"
    using run_then_stop[OF c(1) at_dot_class(1)] by (simp_all add: s)
  have "(Ch CHR ''.'') \<in> set (butlast (tl (d1 @ (Ch CHR ''.'') # d2)))"
    using inner_dot_iff[of "d1 @ (Ch CHR ''.'') # d2"] n by blast
  then show "email_shape s"
    using n c by (simp add: email_shape_def Let_def t at_dot_class)
qed

text \<open>
  A string that matches the day-month-year pattern as it stands matches it after
  \<^verbatim>\<open>strip\<close> and \<^verbatim>\<open>lower\<close> as well, with the same groups.
\<close>

lemma digit_lower: "is_digit c \<Longrightarrow> py_lower_char c = c"
  by (auto simp add: is_digit_def py_def latin1_lower_def)

lemma digit_no_space: "is_digit c \<Longrightarrow> \<not> is_space c"
  by (auto simp add: is_digit_def py_def latin1_space_def)

lemma dash_slash_lower: "dash_slash c \<Longrightarrow> py_lower_char c = c"
  by (auto simp add: dash_slash_def latin1_lower_def)

lemma strip_core:
  assumes "xs \<noteq> []" "\<not> is_space (hd xs)" "\<not> is_space (last xs)"
    and "e = [] \<or> e = [Ch (CHR 0x0A)]"
  shows "py_strip (xs @ e) = xs"
proof -
  have n: "latin1_space (CHR 0x0A)" by code_simp
  have 1: "dropWhile is_space (xs @ e) = xs @ e"
    using assms(1,2) by (intro dropWhile_keep) simp_all
  have "rev xs \<noteq> []" "\<not> is_space (hd (rev xs))"
    using assms(1,3) by (simp_all add: hd_rev)
  then have 2: "dropWhile is_space (rev xs) = rev xs" by (rule dropWhile_keep)
  from assms(4) show ?thesis
    by (auto simp add: py_strip_def 1 2 n)
qed

lemma match_dmy_raw:
  assumes "match_dmy s = Some (p1, p2, year)"
  shows "match_dmy (py_lower (py_strip s)) = Some (p1, p2, year)"
proof -
  from assms obtain x y e where s: "s = p1 @ x # p2 @ y # year @ e"
    and h: "dash_slash x" "dash_slash y" "e = [] \<or> e = [Ch (CHR 0x0A)]"
    and d: "list_all is_digit p1" "list_all is_digit p2" "list_all is_digit year"
    and l: "one_or_two p1" "one_or_two p2" "length year = 4"
    using match_dmy_iff[of s p1 p2 year] by blast
  let ?core = "p1 @ x # p2 @ y # year"
  from l have ne: "p1 \<noteq> []" "year \<noteq> []" by (auto simp add: one_or_two_def)
  have "is_digit (hd p1)" "is_digit (last year)"
    using d ne by (simp_all add: list_all_iff)
  then have "\<not> is_space (hd ?core)" "\<not> is_space (last ?core)"
    using ne by (simp_all add: digit_no_space)
  then have st: "py_strip s = ?core"
    using strip_core[of ?core e] h(3) by (simp add: s)
  have "map py_lower_char ?core = ?core"
    using d h by (simp add: list_all_iff digit_lower dash_slash_lower map_idI)
  then have c: "py_lower (py_strip s) = p1 @ x # p2 @ y # year @ []"
    by (simp add: st py_lower_def)
  have "\<exists>x y e. py_lower (py_strip s) = p1 @ x # p2 @ y # year @ e \<and> dash_slash x \<and>
      dash_slash y \<and> (e = [] \<or> e = [Ch (CHR 0x0A)]) \<and>
      list_all is_digit p1 \<and> one_or_two p1 \<and> list_all is_digit p2 \<and> one_or_two p2 \<and>
      list_all is_digit year \<and> length year = 4"
    using c h(1,2) d l by (intro exI[of _ x] exI[of _ y] exI[of _ "[]"]) simp
  then show ?thesis by (simp only: match_dmy_iff)
qed

text \<open>The search for a numeric token: leftmost, the sign and the fraction when they are there.\<close>

lemma search_number_examples:
  "search_number (py ''abc-12.5x'') = Some (py ''-12.5'')"
  "search_number (py ''12.'') = Some (py ''12'')"
  "search_number (py ''+-3'') = Some (py ''-3'')"
  "search_number (py ''.5'') = Some (py ''.5'')"
  "search_number (py ''1.2.3'') = Some (py ''1.2'')"
  "search_number (py ''7000'') = Some (py ''7000'')"
  "search_number (py ''abc'') = None"
  by code_simp+

text \<open>The search finds no token exactly in the strings without a digit.\<close>

lemma match_unsigned_None_iff:
  "match_unsigned t = None \<longleftrightarrow>
     \<not> (t \<noteq> [] \<and> (is_digit (hd t) \<or> (hd t = Ch CHR ''.'' \<and> tl t \<noteq> [] \<and> is_digit (hd (tl t)))))"
proof (cases t)
  case Nil
  then show ?thesis by (simp add: match_unsigned_def)
next
  case (Cons c cs)
  have dot: "\<not> is_digit (Ch CHR ''.'')" by (simp add: is_digit_def py_def)
  show ?thesis
  proof (cases "is_digit c")
    case True
    then show ?thesis by (simp add: Cons match_unsigned_def Let_def)
  next
    case False
    then show ?thesis
      by (cases cs) (auto simp add: Cons match_unsigned_def Let_def dot)
  qed
qed

lemma match_number_here_digit: "match_number_here s \<noteq> None \<Longrightarrow> \<exists>c \<in> set s. is_digit c"
proof -
  have u: "\<And>t. match_unsigned t \<noteq> None \<Longrightarrow> \<exists>c \<in> set t. is_digit c"
  proof -
    fix t assume "match_unsigned t \<noteq> None"
    then have "t \<noteq> [] \<and> (is_digit (hd t) \<or> (tl t \<noteq> [] \<and> is_digit (hd (tl t))))"
      using match_unsigned_None_iff[of t] by auto
    then show "\<exists>c \<in> set t. is_digit c"
      by (cases t; cases "tl t") auto
  qed
  assume "match_number_here s \<noteq> None"
  then have "match_unsigned s \<noteq> None \<or> (s \<noteq> [] \<and> match_unsigned (tl s) \<noteq> None)"
    by (auto simp add: match_number_here_def split: if_splits option.splits)
  then show ?thesis
  proof
    assume "match_unsigned s \<noteq> None"
    then show ?thesis by (rule u)
  next
    assume a: "s \<noteq> [] \<and> match_unsigned (tl s) \<noteq> None"
    then have "\<exists>c \<in> set (tl s). is_digit c" by (intro u) simp
    with a show ?thesis by (cases s) auto
  qed
qed

lemma match_number_here_first_digit:
  "is_digit c \<Longrightarrow> match_number_here (c # cs) \<noteq> None"
proof -
  assume c: "is_digit c"
  then have "c \<noteq> Ch CHR ''-''" "c \<noteq> Ch CHR ''+''" by (auto simp add: is_digit_def py_def)
  moreover have "match_unsigned (c # cs) \<noteq> None"
    using c match_unsigned_None_iff[of "c # cs"] by simp
  ultimately show ?thesis by (simp add: match_number_here_def)
qed

lemma search_number_None_iff: "search_number s = None \<longleftrightarrow> (\<forall>c \<in> set s. \<not> is_digit c)"
proof (induction s)
  case Nil
  show ?case by (simp add: match_number_here_def match_unsigned_def)
next
  case (Cons c cs)
  show ?case
  proof (cases "match_number_here (c # cs)")
    case None
    then have "\<not> is_digit c" using match_number_here_first_digit[of c cs] by auto
    with None Cons show ?thesis by simp
  next
    case (Some m)
    then have "\<exists>d \<in> set (c # cs). is_digit d"
      using match_number_here_digit[of "c # cs"] by simp
    with Some show ?thesis by auto
  qed
qed

section \<open>Properties of \<^verbatim>\<open>clean_email\<close>\<close>

subsection \<open>Lower case, white space and the repair\<close>

lemma lower_char_idem: "py_lower_char (py_lower_char c) = py_lower_char c"
  by (cases c) (simp_all add: latin1_lower_def Let_def)

lemma lower_char_space: "is_space (py_lower_char c) = is_space c"
  by (cases c) (auto simp add: latin1_lower_def Let_def latin1_space_def)

lemma lower_char_at: "latin1_lower CHR ''@'' = CHR ''@''"
  by code_simp

lemma at_not_space: "\<not> latin1_space CHR ''@''"
  by code_simp

lemma stripped_strip: "stripped (py_strip s)"
proof -
  define e where "e = dropWhile is_space s"
  define d where "d = dropWhile is_space (rev e)"
  have ps: "py_strip s = rev d" by (simp add: py_strip_def d_def e_def)
  show ?thesis
  proof (cases "d = []")
    case True
    then show ?thesis by (simp add: stripped_def ps)
  next
    case False
    then have e: "e \<noteq> []" by (auto simp add: d_def)
    have h: "\<not> is_space (hd d)" using False unfolding d_def by (rule hd_dropWhile)
    have "\<not> is_space (hd e)" using e unfolding e_def by (rule hd_dropWhile)
    moreover have "last d = last (rev e)" using False unfolding d_def by (rule last_dropWhile)
    ultimately have l: "\<not> is_space (last d)" using e by (simp add: last_rev)
    show ?thesis using False h l by (simp add: stripped_def ps hd_rev last_rev)
  qed
qed

lemma strip_stripped: "stripped x \<Longrightarrow> py_strip x = x"
proof (cases "x = []")
  case True
  then show ?thesis by (simp add: py_strip_def)
next
  case False
  assume "stripped x"
  with False have h: "\<not> is_space (hd x)" and l: "\<not> is_space (last x)"
    by (simp_all add: stripped_def)
  from False h have 1: "dropWhile is_space x = x" by (rule dropWhile_keep)
  from False have r: "rev x \<noteq> []" by simp
  from l False have "\<not> is_space (hd (rev x))" by (simp add: hd_rev)
  with r have 2: "dropWhile is_space (rev x) = rev x" by (rule dropWhile_keep)
  show ?thesis by (simp add: py_strip_def 1 2)
qed

lemma stripped_map:
  assumes "stripped x" and f: "\<And>c. \<not> is_space c \<Longrightarrow> \<not> is_space (f c)"
  shows "stripped (map f x)"
proof (cases "x = []")
  case True
  then show ?thesis by (simp add: stripped_def)
next
  case False
  with assms(1) have h: "\<not> is_space (hd x)" and l: "\<not> is_space (last x)"
    by (simp_all add: stripped_def)
  have "\<not> is_space (f (hd x))" and "\<not> is_space (f (last x))"
    using f[OF h] f[OF l] by blast+
  with False show ?thesis by (simp add: stripped_def hd_map last_map)
qed

lemma repair_email_stable:
  "py_strip (repair_email s) = repair_email s"
  "py_lower (repair_email s) = repair_email s"
  "py_replace (Ch CHR ''#'') (Ch CHR ''@'') (repair_email s) = repair_email s"
  "py_replace Fullwidth_At (Ch CHR ''@'') (repair_email s) = repair_email s"
proof -
  let ?f = "\<lambda>c. if c = Ch CHR ''#'' then Ch CHR ''@'' else c"
  let ?g = "\<lambda>c. if c = Fullwidth_At then Ch CHR ''@'' else c"
  let ?h = "\<lambda>c. ?g (?f (py_lower_char c))"
  let ?u = "repair_email s"
  have u: "?u = map ?h (py_strip s)"
    by (simp add: repair_email_def py_replace_def py_lower_def)
  have sp: "\<And>c. \<not> is_space c \<Longrightarrow> \<not> is_space (?h c)"
    by (simp add: lower_char_space at_not_space)
  have "stripped ?u" unfolding u
    using stripped_strip sp by (rule stripped_map)
  then show "py_strip ?u = ?u" by (rule strip_stripped)
  have "\<And>c. py_lower_char (?h c) = ?h c"
    by (simp add: lower_char_idem lower_char_at)
  then show "py_lower ?u = ?u"
    unfolding u by (simp add: py_lower_def)
  show "py_replace (Ch CHR ''#'') (Ch CHR ''@'') ?u = ?u"
    unfolding u by (simp add: py_replace_def)
  show "py_replace Fullwidth_At (Ch CHR ''@'') ?u = ?u"
    unfolding u by (simp add: py_replace_def)
qed

lemma repair_email_idem: "repair_email (repair_email s) = repair_email s"
  by (simp add: repair_email_def[of "repair_email s"] repair_email_stable)

lemma clean_email_value:
  "v \<noteq> Null \<Longrightarrow> fst (clean_email rt v i c lg) = Str (repair_email (py_str rt v))"
  by (simp add: clean_email_def Let_def)

subsection \<open>The two examples and the returned value\<close>

text \<open>
  Claim C7. Email cleaning of \<^verbatim>\<open>"zhang#example.com"\<close> returns \<^verbatim>\<open>"zhang@example.com"\<close> and
  leaves the log as it was: the string is valid after the repair of \<^verbatim>\<open>#\<close>. Email
  cleaning of \<^verbatim>\<open>"lisi@example"\<close> returns \<^verbatim>\<open>"lisi@example"\<close> and appends exactly one entry, of
  issue \<open>invalid_email\<close>, whose \<open>cleaned\<close> field is the repaired and still invalid string.
  In general, for a cell that is not absent, \<^verbatim>\<open>clean_email\<close> returns the repaired string
  whether it is valid or not, never the absent value.
\<close>

theorem clean_email_examples:
  "clean_email rt (Str (py ''zhang#example.com'')) i c lg = (Str (py ''zhang@example.com''), lg) \<and>
   clean_email rt (Str (py ''lisi@example'')) i c lg =
     (Str (py ''lisi@example''),
      lg @ [\<lparr>row = i + 1, column = c, raw = Str (py ''lisi@example''), cleaned = Str (py ''lisi@example''),
              issue = invalid_email, rule = Some (py ''valid_email_format''),
              hint = Hint_email_incomplete\<rparr>]) \<and>
   (v \<noteq> Null \<longrightarrow>
      fst (clean_email rt v i c lg) = Str (repair_email (py_str rt v)) \<and>
      fst (clean_email rt v i c lg) \<noteq> Null)"
proof -
  have a: "clean_email rt (Str (py ''zhang#example.com'')) i c lg = (Str (py ''zhang@example.com''), lg)"
    by code_simp
  have b: "clean_email rt (Str (py ''lisi@example'')) i c lg =
     (Str (py ''lisi@example''),
      lg @ [\<lparr>row = i + 1, column = c, raw = Str (py ''lisi@example''), cleaned = Str (py ''lisi@example''),
              issue = invalid_email, rule = Some (py ''valid_email_format''),
              hint = Hint_email_incomplete\<rparr>])"
    by code_simp
  have c: "v \<noteq> Null \<longrightarrow>
      fst (clean_email rt v i c lg) = Str (repair_email (py_str rt v)) \<and>
      fst (clean_email rt v i c lg) \<noteq> Null"
    by (simp add: clean_email_value)
  show ?thesis by (rule conjI[OF a conjI[OF b c]])
qed

theorem clean_email_examples_witness:
  "Str (py ''  Bob#Mail.ORG '') \<noteq> Null \<and>
   fst (clean_email sample_runtime (Str (py ''  Bob#Mail.ORG '')) 0 (py ''email'') []) = Str (py ''bob@mail.org'')"
proof -
  have r: "repair_email (py ''  Bob#Mail.ORG '') = py ''bob@mail.org''"
    by code_simp
  show ?thesis
    using clean_email_examples[where v = "Str (py ''  Bob#Mail.ORG '')" and rt = sample_runtime
        and i = 0 and c = "py ''email''" and lg = "[]"] r
    by simp
qed

subsection \<open>Cleaning a cleaned value\<close>

text \<open>
  Claim C10. \<^verbatim>\<open>clean_email\<close> is idempotent as a transformation of values: for every cell
  \<open>v\<close> that is not absent, cleaning the value that \<^verbatim>\<open>clean_email\<close> returned for \<open>v\<close> gives
  that value again, whatever the row, the column and the log of either call are. The
  value returned is the repaired text, and each step of the repair leaves it as it is:
  the trimming, the lower-casing, the replacement of \<^verbatim>\<open>#\<close> by \<^verbatim>\<open>@\<close> and the replacement of
  the full-width commercial at (U+FF20) by \<^verbatim>\<open>@\<close>.
\<close>

theorem clean_email_idempotent:
  "v \<noteq> Null \<Longrightarrow>
   fst (clean_email rt (fst (clean_email rt v i c lg)) j d lg') = fst (clean_email rt v i c lg) \<and>
   (let e = repair_email (py_str rt v)
    in fst (clean_email rt v i c lg) = Str e \<and>
       py_strip e = e \<and> py_lower e = e \<and>
       py_replace (Ch CHR ''#'') (Ch CHR ''@'') e = e \<and>
       py_replace Fullwidth_At (Ch CHR ''@'') e = e)"
  by (simp add: clean_email_value repair_email_idem repair_email_stable Let_def)

theorem clean_email_idempotent_witness:
  "Str (py ''  Bob'' @ Fullwidth_At # py ''Mail.ORG '') \<noteq> Null \<and>
   fst (clean_email sample_runtime (Str (py ''  Bob'' @ Fullwidth_At # py ''Mail.ORG '')) 0
          (py ''email'') []) = Str (py ''bob@mail.org'') \<and>
   fst (clean_email sample_runtime (Str (py ''bob@mail.org'')) 0 (py ''email'') [])
     = Str (py ''bob@mail.org'') \<and>
   fst (clean_email sample_runtime (Str (py '' Li#Corp.cn'')) 0 (py ''email'') [])
     = Str (py ''li@corp.cn'') \<and>
   fst (clean_email sample_runtime (Str (py ''li@corp.cn'')) 0 (py ''email'') [])
     = Str (py ''li@corp.cn'')"
proof -
  let ?v = "Str (py ''  Bob'' @ Fullwidth_At # py ''Mail.ORG '')"
  let ?w = "Str (py '' Li#Corp.cn'')"
  have r: "fst (clean_email sample_runtime ?v 0 (py ''email'') []) = Str (py ''bob@mail.org'')"
    "fst (clean_email sample_runtime ?w 0 (py ''email'') []) = Str (py ''li@corp.cn'')"
    by code_simp+
  show ?thesis
    using clean_email_idempotent[where v = ?v and rt = sample_runtime
        and i = 0 and c = "py ''email''" and lg = "[]" and j = 0 and d = "py ''email''" and lg' = "[]"]
      clean_email_idempotent[where v = ?w and rt = sample_runtime
        and i = 0 and c = "py ''email''" and lg = "[]" and j = 0 and d = "py ''email''" and lg' = "[]"]
      r
    by simp
qed

section \<open>Properties of \<^verbatim>\<open>clean_numeric\<close>\<close>

lemma float_of_token_7000: "float_of_token (py ''7000'') = 7000"
  by (simp add: float_of_token_def int_of_digits_def is_digit_def py_def)

lemma salary_rules: "py_lower (py ''salary'') = py ''salary''"
  "\<not> py_in (py ''age'') (py ''salary'')" "py_in (py ''salary'') (py ''salary'')"
  "\<not> py_in (py ''price'') (py ''salary'')" "\<not> py_in (py ''quantity'') (py ''salary'')"
  by code_simp+

subsection \<open>The search for the token in a text\<close>

lemma match_unsigned_fresh:
  "\<not> is_digit c \<Longrightarrow> c \<noteq> Ch CHR ''.'' \<Longrightarrow> match_unsigned (c # cs) = None"
  by (simp add: match_unsigned_def Let_def)

lemma search_number_skip:
  "list_all (\<lambda>c. \<not> is_digit c \<and> c \<notin> set (py ''+-.'')) pre \<Longrightarrow>
   search_number (pre @ rest) = search_number rest"
proof (induction pre)
  case Nil
  then show ?case by simp
next
  case (Cons c pre)
  then have c: "\<not> is_digit c" "c \<noteq> Ch CHR ''+''" "c \<noteq> Ch CHR ''-''" "c \<noteq> Ch CHR ''.''"
    by (simp_all add: py_def)
  then have "match_number_here (c # pre @ rest) = None"
    by (simp add: match_number_here_def match_unsigned_fresh)
  with Cons show ?case by simp
qed

lemma match_digits_here:
  assumes "ds \<noteq> []" "list_all is_digit ds"
    and "post = [] \<or> (\<not> is_digit (hd post) \<and> hd post \<noteq> Ch CHR ''.'')"
  shows "search_number (ds @ post) = Some ds"
proof -
  have t: "takeWhile is_digit (ds @ post) = ds \<and> dropWhile is_digit (ds @ post) = post"
  proof (cases post)
    case Nil
    then show ?thesis using run_to_end[OF assms(2)] by simp
  next
    case (Cons p ps)
    with assms(3) have "\<not> is_digit p" by simp
    then show ?thesis using run_then_stop[OF assms(2), of p ps] Cons by simp
  qed
  have h: "is_digit (hd ds)" using assms(1,2) by (cases ds) simp_all
  then have s: "hd ds \<noteq> Ch CHR ''-''" "hd ds \<noteq> Ch CHR ''+''"
    by (auto simp add: is_digit_def py_def)
  have u: "match_unsigned (ds @ post) = Some ds"
    using assms(1,3) by (auto simp add: match_unsigned_def Let_def t)
  have "match_number_here (ds @ post) = Some ds"
    using assms(1) s u by (simp add: match_number_here_def)
  then show ?thesis using assms(1) by (cases ds) simp_all
qed

subsection \<open>The cells that reach \<^verbatim>\<open>add_log\<close>\<close>

lemma clean_numeric_token:
  assumes "v \<noteq> Null" and "py_strip (py_str rt v) = raw_str" and "raw_str \<noteq> []"
    and "py_lower raw_str \<notin> set null_keywords"
    and "search_number (strip_currency (py_lower raw_str)) = Some tok"
  shows "clean_numeric rt rules v i col lg =
           check_rules rules i col raw_str (float_of_token tok) lg"
  using assms by (simp add: clean_numeric_def Let_def)

lemma clean_numeric_log_unchanged:
  "clean_numeric rt rules v i col lg = Inr (c, lg') \<Longrightarrow> lg' = lg"
proof -
  have r: "\<And>num raw_str. check_rules rules i col raw_str num lg = Inr (c, lg') \<Longrightarrow> lg' = lg"
    by (induction rules) (auto simp add: add_log_def split: if_splits)
  assume "clean_numeric rt rules v i col lg = Inr (c, lg')"
  then show ?thesis
    by (auto simp add: clean_numeric_def Let_def add_log_def
        split: if_splits option.splits dest: r)
qed

lemma clean_numeric_placeholder_raises:
  "v \<noteq> Null \<Longrightarrow> py_strip (py_str rt v) \<noteq> [] \<Longrightarrow>
   py_lower (py_strip (py_str rt v)) \<in> set null_keywords \<Longrightarrow>
   clean_numeric rt rules v i col lg = Inl AttributeError"
  by (simp add: clean_numeric_def Let_def add_log_def)

lemma clean_numeric_no_token_raises:
  "v \<noteq> Null \<Longrightarrow> py_strip (py_str rt v) \<noteq> [] \<Longrightarrow>
   py_lower (py_strip (py_str rt v)) \<notin> set null_keywords \<Longrightarrow>
   search_number (strip_currency (py_lower (py_strip (py_str rt v)))) = None \<Longrightarrow>
   clean_numeric rt rules v i col lg = Inl AttributeError"
  by (simp add: clean_numeric_def Let_def add_log_def)

lemma abc_cell: "clean_numeric rt rules (Str (py ''abc'')) i col lg = Inl AttributeError"
proof -
  have "py_strip (py_str rt (Str (py ''abc''))) \<noteq> []"
    "py_lower (py_strip (py_str rt (Str (py ''abc'')))) \<notin> set null_keywords"
    "search_number (strip_currency (py_lower (py_strip (py_str rt (Str (py ''abc'')))))) = None"
    by code_simp+
  then show ?thesis by (intro clean_numeric_no_token_raises) simp_all
qed

subsection \<open>The currency example\<close>

lemma usd_cell:
  "clean_numeric rt default_rules (Str (py ''USD $7,000 per year'')) i (py ''salary'') lg
     = Inr (PyFloat 7000, lg)"
proof -
  have s: "py_strip (py ''USD $7,000 per year'') = py ''USD $7,000 per year''" by code_simp
  have k: "py_lower (py ''USD $7,000 per year'') \<notin> set null_keywords" by code_simp
  have m: "search_number (strip_currency (py_lower (py ''USD $7,000 per year''))) = Some (py ''7000'')"
    by code_simp
  have r: "check_rules default_rules i (py ''salary'') (py ''USD $7,000 per year'') 7000 lg
      = Inr (PyFloat 7000, lg)"
    by (simp add: default_rules_def salary_rules)
  show ?thesis
    using k m r by (simp add: clean_numeric_def s Let_def float_of_token_7000)
qed

text \<open>
  Claim C4. Numeric cleaning of the string \<^verbatim>\<open>"$7,000"\<close> in a column named \<^verbatim>\<open>salary\<close>, under
  the default rules (\<^verbatim>\<open>salary\<close>: minimum 0, maximum 10000000): removing the currency
  marker and the comma leaves \<^verbatim>\<open>7000\<close>, the pattern search finds the token \<^verbatim>\<open>7000\<close>, its
  value is 7000, and \<^verbatim>\<open>clean_numeric\<close> returns the number 7000 with the log unchanged,
  so with no range violation and no log entry, at every row and after every log.
  The token is found by a search, not by a match of the whole string, and it is the
  first, signed or unsigned, decimal token of the text: the cell \<^verbatim>\<open>"USD $7,000 per year"\<close>
  is cleaned to 7000 as well, in \<^verbatim>\<open>ref 2 of 15\<close> the token is \<^verbatim>\<open>2\<close>, in \<^verbatim>\<open>abc-12.5x\<close> it
  is \<^verbatim>\<open>-12.5\<close>, and in every text that begins with characters that are neither digit nor
  sign nor point, followed by a run of digits that ends the text or stands before a
  character that is neither digit nor point, the token is that run.
\<close>

theorem clean_numeric_currency:
  "strip_currency (py_lower (py_strip (py ''$7,000''))) = py ''7000'' \<and>
   search_number (py ''7000'') = Some (py ''7000'') \<and>
   float_of_token (py ''7000'') = 7000 \<and>
   clean_numeric rt default_rules (Str (py ''$7,000'')) i (py ''salary'') lg = Inr (PyFloat 7000, lg) \<and>
   strip_currency (py_lower (py_strip (py ''USD $7,000 per year''))) = py ''usd 7000 per year'' \<and>
   search_number (py ''usd 7000 per year'') = Some (py ''7000'') \<and>
   clean_numeric rt default_rules (Str (py ''USD $7,000 per year'')) i (py ''salary'') lg
     = Inr (PyFloat 7000, lg) \<and>
   search_number (py ''ref 2 of 15'') = Some (py ''2'') \<and>
   search_number (py ''abc-12.5x'') = Some (py ''-12.5'') \<and>
   (list_all (\<lambda>c. \<not> is_digit c \<and> c \<notin> set (py ''+-.'')) pre \<and>
    ds \<noteq> [] \<and> list_all is_digit ds \<and>
    (post = [] \<or> (\<not> is_digit (hd post) \<and> hd post \<noteq> Ch CHR ''.'')) \<longrightarrow>
      search_number (pre @ ds @ post) = Some ds)"
proof -
  have s: "py_strip (py ''$7,000'') = py ''$7,000''" by code_simp
  have k: "py_lower (py ''$7,000'') \<notin> set null_keywords" by code_simp
  have t: "strip_currency (py_lower (py_strip (py ''$7,000''))) = py ''7000''"
    by code_simp
  have m: "search_number (py ''7000'') = Some (py ''7000'')" by code_simp
  have r: "check_rules default_rules i (py ''salary'') (py ''$7,000'') 7000 lg = Inr (PyFloat 7000, lg)"
    by (simp add: default_rules_def salary_rules)
  have a: "clean_numeric rt default_rules (Str (py ''$7,000'')) i (py ''salary'') lg = Inr (PyFloat 7000, lg)"
    using k t[unfolded s] m r
    by (simp add: clean_numeric_def s Let_def float_of_token_7000)
  have e: "strip_currency (py_lower (py_strip (py ''USD $7,000 per year''))) = py ''usd 7000 per year''"
    "search_number (py ''usd 7000 per year'') = Some (py ''7000'')"
    "search_number (py ''ref 2 of 15'') = Some (py ''2'')"
    "search_number (py ''abc-12.5x'') = Some (py ''-12.5'')"
    by code_simp+
  have g: "list_all (\<lambda>c. \<not> is_digit c \<and> c \<notin> set (py ''+-.'')) pre \<and>
    ds \<noteq> [] \<and> list_all is_digit ds \<and>
    (post = [] \<or> (\<not> is_digit (hd post) \<and> hd post \<noteq> Ch CHR ''.'')) \<longrightarrow>
      search_number (pre @ ds @ post) = Some ds"
    using search_number_skip[of pre "ds @ post"] match_digits_here[of ds post] by simp
  show ?thesis
    using t m float_of_token_7000 a e usd_cell[of rt i lg] g by blast
qed

theorem clean_numeric_currency_witness:
  "list_all (\<lambda>c. \<not> is_digit c \<and> c \<notin> set (py ''+-.'')) (py ''usd '') \<and>
   py ''7000'' \<noteq> [] \<and> list_all is_digit (py ''7000'') \<and>
   \<not> is_digit (hd (py '' per year'')) \<and> hd (py '' per year'') \<noteq> Ch CHR ''.'' \<and>
   search_number (py ''usd '' @ py ''7000'' @ py '' per year'') = Some (py ''7000'')"
proof -
  have a: "list_all (\<lambda>c. \<not> is_digit c \<and> c \<notin> set (py ''+-.'')) (py ''usd '')"
    "list_all is_digit (py ''7000'')"
    "\<not> is_digit (hd (py '' per year''))" "hd (py '' per year'') \<noteq> Ch CHR ''.''"
    by code_simp+
  have n: "py ''7000'' \<noteq> []" by simp
  show ?thesis
    using clean_numeric_currency[of sample_runtime 0 "[]" "py ''usd ''" "py ''7000''" "py '' per year''"]
      a n by blast
qed

section \<open>Properties of \<^verbatim>\<open>clean_date\<close>\<close>

lemma not_keywords: "match_dmy (py ''yesterday'') = None" "match_dmy (py ''today'') = None"
  by code_simp+

lemma dmy_not_ymd: "match_dmy s = Some g \<Longrightarrow> match_ymd s = None"
  by (auto simp add: match_dmy_def match_ymd_def one_or_two_def
      split: option.splits if_splits)

lemma match_dmy_lengths:
  "match_dmy s = Some (p1, p2, year) \<Longrightarrow> one_or_two p1 \<and> one_or_two p2 \<and> length year = 4"
  by (auto simp add: match_dmy_def split: option.splits if_splits)

lemma zfill2_length: "one_or_two p \<Longrightarrow> length (zfill2 p) = 2"
  by (auto simp add: one_or_two_def zfill2_def)

lemma clean_date_dmy_branch:
  assumes "v \<noteq> Null" and m: "match_dmy (py_lower (py_strip (py_str rt v))) = Some (p1, p2, year)"
  shows "clean_date rt v i c lg =
     (if int_of_digits p1 \<le> 12 \<and> int_of_digits p2 \<le> 12
      then (Str (iso_date year p1 p2),
            lg @ [\<lparr>row = i + 1, column = c, raw = v, cleaned = Str (iso_date year p1 p2),
                    issue = ambiguous_date, rule = None, hint = Hint_ambiguous p1 p2\<rparr>])
      else (Str (iso_date year (if int_of_digits p1 \<le> 12 then p1 else p2)
                               (if int_of_digits p1 \<le> 12 then p2 else p1)), lg))"
proof -
  let ?s = "py_lower (py_strip (py_str rt v))"
  have y: "?s \<noteq> py ''yesterday''" and t: "?s \<noteq> py ''today''"
    using m not_keywords by auto
  have ymd: "match_ymd ?s = None" using m by (rule dmy_not_ymd)
  show ?thesis
    using assms(1) y t by (simp add: clean_date_def Let_def ymd m)
qed

text \<open>
  Claim C5, as amended. Let the stripped, lower-cased text of a cell that is not absent
  match the pattern \<^verbatim>\<open>D[-/]M[-/]YYYY\<close> with the leading components \<open>p1\<close> and \<open>p2\<close>. If both
  are at most 12, \<^verbatim>\<open>clean_date\<close> takes \<open>p1\<close> as month and \<open>p2\<close> as day, appends exactly one
  entry of issue \<open>ambiguous_date\<close> whose \<open>cleaned\<close> field is the resolved ISO string and
  whose hint names both readings, and returns the resolved string. If exactly one of
  them is at most 12, it appends nothing and returns the ISO string in which that
  component is the month and the other the day. If neither is at most 12, it appends
  nothing and returns the string in which \<open>p2\<close> stands as month and \<open>p1\<close> as day. The
  year has four digits, and month and day are padded to two. By \<open>match_dmy_iff\<close> the
  hypothesis says that the text is a run of one or two digits, a separator, such a run
  again, a separator and four digits; by \<open>match_dmy_raw\<close> it holds for every text that
  matches the pattern as it stands.
\<close>

theorem clean_date_day_month:
  assumes "v \<noteq> Null"
    and "match_dmy (py_lower (py_strip (py_str rt v))) = Some (p1, p2, year)"
  shows "(int_of_digits p1 \<le> 12 \<and> int_of_digits p2 \<le> 12 \<longrightarrow>
            clean_date rt v i c lg =
              (Str (iso_date year p1 p2),
               lg @ [\<lparr>row = i + 1, column = c, raw = v, cleaned = Str (iso_date year p1 p2),
                       issue = ambiguous_date, rule = None, hint = Hint_ambiguous p1 p2\<rparr>])) \<and>
         (int_of_digits p1 \<le> 12 \<and> \<not> int_of_digits p2 \<le> 12 \<longrightarrow>
            clean_date rt v i c lg = (Str (iso_date year p1 p2), lg)) \<and>
         (\<not> int_of_digits p1 \<le> 12 \<and> int_of_digits p2 \<le> 12 \<longrightarrow>
            clean_date rt v i c lg = (Str (iso_date year p2 p1), lg)) \<and>
         (\<not> int_of_digits p1 \<le> 12 \<and> \<not> int_of_digits p2 \<le> 12 \<longrightarrow>
            clean_date rt v i c lg = (Str (iso_date year p2 p1), lg)) \<and>
         length year = 4 \<and> length (zfill2 p1) = 2 \<and> length (zfill2 p2) = 2"
  using clean_date_dmy_branch[OF assms, of i c lg] match_dmy_lengths[OF assms(2)]
  by (simp add: zfill2_length)

theorem clean_date_day_month_witness:
  "Str (py ''01/02/2024'') \<noteq> Null \<and>
   match_dmy (py_lower (py_strip (py_str sample_runtime (Str (py ''01/02/2024''))))) =
     Some (py ''01'', py ''02'', py ''2024'') \<and>
   int_of_digits (py ''01'') \<le> 12 \<and> int_of_digits (py ''02'') \<le> 12 \<and>
   clean_date sample_runtime (Str (py ''01/02/2024'')) 1 (py ''date'') [] =
     (Str (py ''2024-01-02''),
      [\<lparr>row = 2, column = py ''date'', raw = Str (py ''01/02/2024''),
         cleaned = Str (py ''2024-01-02''), issue = ambiguous_date, rule = None,
         hint = Hint_ambiguous (py ''01'') (py ''02'')\<rparr>]) \<and>
   match_dmy (py_lower (py_strip (py_str sample_runtime (Str (py ''25/3/2024''))))) =
     Some (py ''25'', py ''3'', py ''2024'') \<and>
   \<not> int_of_digits (py ''25'') \<le> 12 \<and> int_of_digits (py ''3'') \<le> 12 \<and>
   clean_date sample_runtime (Str (py ''25/3/2024'')) 1 (py ''date'') [] = (Str (py ''2024-03-25''), []) \<and>
   match_dmy (py_lower (py_strip (py_str sample_runtime (Str (py ''3-25-2024''))))) =
     Some (py ''3'', py ''25'', py ''2024'') \<and>
   clean_date sample_runtime (Str (py ''3-25-2024'')) 1 (py ''date'') [] = (Str (py ''2024-03-25''), []) \<and>
   match_dmy (py_lower (py_strip (py_str sample_runtime (Str (py ''13/14/2024''))))) =
     Some (py ''13'', py ''14'', py ''2024'') \<and>
   \<not> int_of_digits (py ''13'') \<le> 12 \<and> \<not> int_of_digits (py ''14'') \<le> 12 \<and>
   clean_date sample_runtime (Str (py ''13/14/2024'')) 1 (py ''date'') [] = (Str (py ''2024-14-13''), [])"
proof -
  have n: "Str (py ''01/02/2024'') \<noteq> Null" "Str (py ''25/3/2024'') \<noteq> Null"
    "Str (py ''3-25-2024'') \<noteq> Null" "Str (py ''13/14/2024'') \<noteq> Null" by simp_all
  have a: "match_dmy (py_lower (py_strip (py_str sample_runtime (Str (py ''01/02/2024''))))) =
     Some (py ''01'', py ''02'', py ''2024'')" by code_simp
  have b: "match_dmy (py_lower (py_strip (py_str sample_runtime (Str (py ''25/3/2024''))))) =
     Some (py ''25'', py ''3'', py ''2024'')" by code_simp
  have c: "match_dmy (py_lower (py_strip (py_str sample_runtime (Str (py ''3-25-2024''))))) =
     Some (py ''3'', py ''25'', py ''2024'')" by code_simp
  have d: "match_dmy (py_lower (py_strip (py_str sample_runtime (Str (py ''13/14/2024''))))) =
     Some (py ''13'', py ''14'', py ''2024'')" by code_simp
  have v: "int_of_digits (py ''01'') = 1" "int_of_digits (py ''02'') = 2"
    "int_of_digits (py ''25'') = 25" "int_of_digits (py ''3'') = 3"
    "int_of_digits (py ''13'') = 13" "int_of_digits (py ''14'') = 14"
    by code_simp+
  have f: "iso_date (py ''2024'') (py ''01'') (py ''02'') = py ''2024-01-02''"
    "iso_date (py ''2024'') (py ''3'') (py ''25'') = py ''2024-03-25''"
    "iso_date (py ''2024'') (py ''14'') (py ''13'') = py ''2024-14-13''" by code_simp+
  show ?thesis
    using clean_date_day_month[OF n(1) a, of 1 "py ''date''" "[]"]
      clean_date_day_month[OF n(2) b, of 1 "py ''date''" "[]"]
      clean_date_day_month[OF n(3) c, of 1 "py ''date''" "[]"]
      clean_date_day_month[OF n(4) d, of 1 "py ''date''" "[]"] a b c d
    by (simp add: v f)
qed

text \<open>
  The claim as it was made gives, for every text in which at most one of the two
  components is at most 12, the one that is at most 12 as the month. The text
  \<^verbatim>\<open>13/14/2024\<close> matches the pattern and neither component is at most 12: \<^verbatim>\<open>clean_date\<close>
  returns \<^verbatim>\<open>2024-14-13\<close>, whose month is 14.
\<close>

theorem clean_date_neither_counterexample:
  "match_dmy (py_lower (py_strip (py_str sample_runtime (Str (py ''13/14/2024''))))) =
     Some (py ''13'', py ''14'', py ''2024'') \<and>
   \<not> int_of_digits (py ''13'') \<le> 12 \<and> \<not> int_of_digits (py ''14'') \<le> 12 \<and>
   clean_date sample_runtime (Str (py ''13/14/2024'')) 0 (py ''date'') [] =
     (Str (iso_date (py ''2024'') (py ''14'') (py ''13'')), []) \<and>
   iso_date (py ''2024'') (py ''14'') (py ''13'') = py ''2024-14-13''"
proof -
  have "match_dmy (py_lower (py_strip (py_str sample_runtime (Str (py ''13/14/2024''))))) =
     Some (py ''13'', py ''14'', py ''2024'')" by code_simp
  moreover have "\<not> int_of_digits (py ''13'') \<le> 12" "\<not> int_of_digits (py ''14'') \<le> 12"
    by code_simp+
  moreover have "iso_date (py ''2024'') (py ''14'') (py ''13'') = py ''2024-14-13''"
    by code_simp
  moreover have "clean_date sample_runtime (Str (py ''13/14/2024'')) 0 (py ''date'') [] =
     (Str (py ''2024-14-13''), [])" by code_simp
  ultimately show ?thesis by simp
qed

text \<open>
  Claim C6. For every cell that is not absent and whose stripped, lower-cased text is
  neither of the two keywords \<^verbatim>\<open>yesterday\<close> and \<^verbatim>\<open>today\<close> and matches none of the three
  patterns, \<^verbatim>\<open>clean_date\<close> appends exactly one entry with issue \<open>invalid_format\<close>, rule
  \<^verbatim>\<open>valid_date_format\<close>, \<open>cleaned\<close> absent and the hint that lists the supported formats,
  and returns the original value unmodified, not the absent value. The claim sets
  this against numeric cleaning, which is to return the absent value for a text that is
  no number. That is not what \<^verbatim>\<open>clean_numeric\<close> does: for the text \<^verbatim>\<open>abc\<close>, in which the
  search finds no token, it reaches the call of \<^verbatim>\<open>add_log\<close> that stands before its
  \<^verbatim>\<open>return None\<close> and raises \<^verbatim>\<open>AttributeError\<close>, under every runtime and set of rules, in
  every column, at every row and after every log.
\<close>

theorem clean_date_invalid_format:
  assumes "v \<noteq> Null"
    and "py_lower (py_strip (py_str rt v)) \<noteq> py ''yesterday''"
    and "py_lower (py_strip (py_str rt v)) \<noteq> py ''today''"
    and "match_ymd (py_lower (py_strip (py_str rt v))) = None"
    and "match_dmy (py_lower (py_strip (py_str rt v))) = None"
    and "match_dot (py_lower (py_strip (py_str rt v))) = None"
  shows "clean_date rt v i c lg =
           (v, lg @ [\<lparr>row = i + 1, column = c, raw = v, cleaned = Null, issue = invalid_format,
                        rule = Some (py ''valid_date_format''), hint = Hint_date_formats\<rparr>]) \<and>
         clean_numeric rt rules (Str (py ''abc'')) j d lg' = Inl AttributeError"
  using assms abc_cell[of rt rules j d lg'] by (simp add: clean_date_def Let_def)

theorem clean_date_invalid_format_witness:
  "Str (py ''not-a-date'') \<noteq> Null \<and>
   py_lower (py_strip (py_str sample_runtime (Str (py ''not-a-date'')))) \<noteq> py ''yesterday'' \<and>
   py_lower (py_strip (py_str sample_runtime (Str (py ''not-a-date'')))) \<noteq> py ''today'' \<and>
   match_ymd (py_lower (py_strip (py_str sample_runtime (Str (py ''not-a-date''))))) = None \<and>
   match_dmy (py_lower (py_strip (py_str sample_runtime (Str (py ''not-a-date''))))) = None \<and>
   match_dot (py_lower (py_strip (py_str sample_runtime (Str (py ''not-a-date''))))) = None \<and>
   clean_date sample_runtime (Str (py ''not-a-date'')) 4 (py ''date'') [] =
     (Str (py ''not-a-date''),
      [\<lparr>row = 5, column = py ''date'', raw = Str (py ''not-a-date''), cleaned = Null,
         issue = invalid_format, rule = Some (py ''valid_date_format''), hint = Hint_date_formats\<rparr>]) \<and>
   clean_numeric sample_runtime default_rules (Str (py ''abc'')) 0 (py ''price'') [] =
     Inl AttributeError"
proof -
  have n: "Str (py ''not-a-date'') \<noteq> Null" by simp
  have y: "py_lower (py_strip (py_str sample_runtime (Str (py ''not-a-date'')))) \<noteq> py ''yesterday''"
    by code_simp
  have t: "py_lower (py_strip (py_str sample_runtime (Str (py ''not-a-date'')))) \<noteq> py ''today''"
    by code_simp
  have a: "match_ymd (py_lower (py_strip (py_str sample_runtime (Str (py ''not-a-date''))))) = None"
    by code_simp
  have b: "match_dmy (py_lower (py_strip (py_str sample_runtime (Str (py ''not-a-date''))))) = None"
    by code_simp
  have c: "match_dot (py_lower (py_strip (py_str sample_runtime (Str (py ''not-a-date''))))) = None"
    by code_simp
  show ?thesis
    using clean_date_invalid_format[where v = "Str (py ''not-a-date'')" and rt = sample_runtime
        and i = 4 and c = "py ''date''" and lg = "[]" and rules = default_rules and j = 0
        and d = "py ''price''" and lg' = "[]"] n y t a b c
    by simp
qed

section \<open>Properties of \<^verbatim>\<open>clean_dataframe\<close>\<close>

subsection \<open>Shape of the result and columns without a type\<close>

lemma clean_numeric_list_length:
  "clean_numeric_list rt rules col i cells lg = Inr (cs, lg') \<Longrightarrow> length cs = length cells"
  by (induction cells arbitrary: i lg cs lg')
     (auto split: sum.splits prod.splits)

lemma series_apply_length:
  "series_apply f cells lg = (cs, lg') \<Longrightarrow> length cs = length cells"
  by (induction cells arbitrary: lg cs lg') (auto split: prod.splits)

lemma clean_column_length:
  "clean_column rt rules ft col cells lg = Inr (cells', lg') \<Longrightarrow> length cells' = length cells"
  by (auto simp add: clean_column_def
      split: option.splits field_type.splits sum.splits prod.splits
      dest: clean_numeric_list_length series_apply_length)

lemma clean_column_unmapped:
  "ft col = None \<Longrightarrow> clean_column rt rules ft col cells lg = Inr (cells, lg)"
  by (simp add: clean_column_def)

lemma clean_columns_shape:
  "clean_columns rt rules ft df lg = Inr (df', lg') \<Longrightarrow>
     length df' = length df \<and> map fst df' = map fst df \<and>
     map (length \<circ> snd) df' = map (length \<circ> snd) df"
proof (induction df arbitrary: lg df' lg')
  case Nil
  then show ?case by simp
next
  case (Cons a df)
  obtain col cells where a: "a = (col, cells)" by (cases a)
  from Cons.prems obtain cells' lg1 rest' where
    1: "clean_column rt rules ft col cells lg = Inr (cells', lg1)" and
    2: "clean_columns rt rules ft df lg1 = Inr (rest', lg')" and
    3: "df' = (col, cells') # rest'"
    by (auto simp add: a split: sum.splits prod.splits)
  from Cons.IH[OF 2] clean_column_length[OF 1] show ?case by (simp add: a 3)
qed

lemma clean_columns_unmapped:
  "clean_columns rt rules ft df lg = Inr (df', lg') \<Longrightarrow> k < length df \<Longrightarrow>
   ft (fst (df ! k)) = None \<Longrightarrow> df' ! k = df ! k"
proof (induction df arbitrary: lg df' lg' k)
  case Nil
  then show ?case by simp
next
  case (Cons a df)
  obtain col cells where a: "a = (col, cells)" by (cases a)
  from Cons.prems(1) obtain cells' lg1 rest' where
    1: "clean_column rt rules ft col cells lg = Inr (cells', lg1)" and
    2: "clean_columns rt rules ft df lg1 = Inr (rest', lg')" and
    3: "df' = (col, cells') # rest'"
    by (auto simp add: a split: sum.splits prod.splits)
  show ?case
  proof (cases k)
    case 0
    with Cons.prems(3) have "ft col = None" by (simp add: a)
    with 1 have "cells' = cells" by (simp add: clean_column_unmapped)
    with 0 show ?thesis by (simp add: a 3)
  next
    case (Suc j)
    with Cons.prems have "j < length df" "ft (fst (df ! j)) = None" by simp_all
    from Cons.IH[OF 2 this] Suc show ?thesis by (simp add: 3)
  qed
qed

lemma salary_pass_shape:
  "length (salary_pass rt df) = length df \<and> map fst (salary_pass rt df) = map fst df \<and>
   map (length \<circ> snd) (salary_pass rt df) = map (length \<circ> snd) df"
  by (induction df) (auto simp add: salary_pass_def)

lemma salary_pass_other:
  "k < length df \<Longrightarrow> \<not> py_in (py ''salary'') (py_lower (fst (df ! k))) \<Longrightarrow>
   salary_pass rt df ! k = df ! k"
  by (cases "df ! k") (simp add: salary_pass_def)

lemma clean_dataframe_shape:
  assumes "clean_dataframe rt rules df ft = Inr (df_cleaned, df_original, lg)"
  shows "df_original = df \<and> map fst df_cleaned = map fst df \<and>
         map (length \<circ> snd) df_cleaned = map (length \<circ> snd) df"
proof -
  from assms obtain dfc where
    1: "clean_columns rt rules ft df [] = Inr (dfc, lg)" and
    2: "df_cleaned = salary_pass rt dfc" and 3: "df_original = df"
    by (auto simp add: clean_dataframe_def split: sum.splits prod.splits)
  from clean_columns_shape[OF 1] salary_pass_shape[of rt dfc] show ?thesis
    by (simp add: 2 3)
qed

lemma clean_columns_nth:
  "clean_columns rt rules ft df lg = Inr (df', lg') \<Longrightarrow> k < length df \<Longrightarrow>
   \<exists>lg0 lg1 cells'.
     clean_column rt rules ft (fst (df ! k)) (snd (df ! k)) lg0 = Inr (cells', lg1) \<and>
     df' ! k = (fst (df ! k), cells')"
proof (induction df arbitrary: lg df' lg' k)
  case Nil
  then show ?case by simp
next
  case (Cons a df)
  obtain col cells where a: "a = (col, cells)" by (cases a)
  from Cons.prems(1) obtain cells' lg1 rest' where
    1: "clean_column rt rules ft col cells lg = Inr (cells', lg1)" and
    2: "clean_columns rt rules ft df lg1 = Inr (rest', lg')" and
    3: "df' = (col, cells') # rest'"
    by (auto simp add: a split: sum.splits prod.splits)
  show ?case
  proof (cases k)
    case 0
    with 1 show ?thesis by (auto simp add: a 3)
  next
    case (Suc j)
    with Cons.prems(2) have "j < length df" by simp
    from Cons.IH[OF 2 this] Suc show ?thesis by (simp add: 3)
  qed
qed

lemma pd_to_numeric_no_str: "pd_to_numeric rt c \<noteq> Str s"
  by (simp add: pd_to_numeric_def split: cell.splits option.splits)

lemma salary_pass_salary:
  "k < length df \<Longrightarrow> py_in (py ''salary'') (py_lower (fst (df ! k))) \<Longrightarrow>
   salary_pass rt df ! k = (fst (df ! k), map (pd_to_numeric rt) (snd (df ! k)))"
  by (cases "df ! k") (simp add: salary_pass_def)

lemma mixed_table_run:
  "clean_dataframe sample_runtime default_rules mixed_table mixed_types =
   Inr ([(py ''name'', [Str (py ''Zhang San''), Str (py ''Li Si'')]),
         (py ''email'', [Str (py ''zhang@example.com''), Str (py ''lisi@example'')]),
         (py ''Base_Salary'', [Null, PyFloat 12]),
         (py ''salary_contact'', [Null, PyFloat 15])],
        mixed_table,
        [\<lparr>row = 1, column = py ''email'', raw = Str (py ''lisi@example''),
           cleaned = Str (py ''lisi@example''), issue = invalid_email,
           rule = Some (py ''valid_email_format''), hint = Hint_email_incomplete\<rparr>,
         \<lparr>row = 1, column = py ''salary_contact'', raw = Str (py ''15''),
           cleaned = Str (py ''15''), issue = invalid_email,
           rule = Some (py ''valid_email_format''), hint = Hint_email_incomplete\<rparr>])"
proof -
  have c: "clean_columns sample_runtime default_rules mixed_types mixed_table [] =
    Inr ([(py ''name'', [Str (py ''Zhang San''), Str (py ''Li Si'')]),
         (py ''email'', [Str (py ''zhang@example.com''), Str (py ''lisi@example'')]),
         (py ''Base_Salary'', [Str (py ''abc''), Str (py ''12'')]),
         (py ''salary_contact'', [Str (py ''li@corp.cn''), Str (py ''15'')])],
        [\<lparr>row = 1, column = py ''email'', raw = Str (py ''lisi@example''),
           cleaned = Str (py ''lisi@example''), issue = invalid_email,
           rule = Some (py ''valid_email_format''), hint = Hint_email_incomplete\<rparr>,
         \<lparr>row = 1, column = py ''salary_contact'', raw = Str (py ''15''),
           cleaned = Str (py ''15''), issue = invalid_email,
           rule = Some (py ''valid_email_format''), hint = Hint_email_incomplete\<rparr>])"
    by code_simp
  have n: "\<not> py_in (py ''salary'') (py_lower (py ''name''))"
    "\<not> py_in (py ''salary'') (py_lower (py ''email''))"
    "py_in (py ''salary'') (py_lower (py ''Base_Salary''))"
    "py_in (py ''salary'') (py_lower (py ''salary_contact''))"
    by code_simp+
  have p: "plain_decimal (py ''abc'') = None" "plain_decimal (py ''li@corp.cn'') = None"
    by code_simp+
  have m: "match_number_here (py ''12'') = Some (py ''12'')"
    "match_number_here (py ''15'') = Some (py ''15'')" by code_simp+
  have f: "float_of_token (py ''12'') = 12" "float_of_token (py ''15'') = 15"
    by (simp_all add: float_of_token_def int_of_digits_def is_digit_def py_def)
  have q: "plain_decimal (py ''12'') = Some 12" "plain_decimal (py ''15'') = Some 15"
    by (simp_all add: plain_decimal_def m f)
  have ts: "to_numeric_str sample_runtime = plain_decimal"
    by (simp add: sample_runtime_def)
  show ?thesis
    by (simp add: clean_dataframe_def c salary_pass_def pd_to_numeric_def ts p q n)
qed

text \<open>
  Claim C3, as amended. Whenever \<^verbatim>\<open>clean_dataframe\<close> returns a result, the original
  table is the input table, and for every column of the input table: if the column is
  absent from the type map and its lower-cased name does not contain \<^verbatim>\<open>salary\<close>, it
  stands in the cleaned table as it stands in the original table; if it is absent from
  the type map and its lower-cased name contains \<^verbatim>\<open>salary\<close>, it stands in the cleaned
  table with every cell put through \<^verbatim>\<open>pd.to_numeric\<close>; and if its lower-cased name
  contains \<^verbatim>\<open>salary\<close>, whether it has a type or not, it stands in the cleaned table as
  the cleaning for its type left it, with every cell then put through \<^verbatim>\<open>pd.to_numeric\<close>,
  so that no cell of it is a text.
\<close>

theorem passthrough_unmapped:
  assumes "clean_dataframe rt rules df ft = Inr (df_cleaned, df_original, lg)"
    and "k < length df"
  shows "df_original = df \<and>
    (ft (fst (df ! k)) = None \<and> \<not> py_in (py ''salary'') (py_lower (fst (df ! k))) \<longrightarrow>
       df_cleaned ! k = df_original ! k) \<and>
    (ft (fst (df ! k)) = None \<and> py_in (py ''salary'') (py_lower (fst (df ! k))) \<longrightarrow>
       df_cleaned ! k = (fst (df ! k), map (pd_to_numeric rt) (snd (df ! k)))) \<and>
    (py_in (py ''salary'') (py_lower (fst (df ! k))) \<longrightarrow>
       (\<exists>lg0 lg1 cells'.
          clean_column rt rules ft (fst (df ! k)) (snd (df ! k)) lg0 = Inr (cells', lg1) \<and>
          df_cleaned ! k = (fst (df ! k), map (pd_to_numeric rt) cells')) \<and>
       (\<forall>c \<in> set (snd (df_cleaned ! k)). \<forall>s. c \<noteq> Str s))"
proof -
  let ?name = "fst (df ! k)"
  let ?sal = "py_in (py ''salary'') (py_lower ?name)"
  from assms(1) obtain dfc where
    1: "clean_columns rt rules ft df [] = Inr (dfc, lg)" and
    2: "df_cleaned = salary_pass rt dfc" and 3: "df_original = df"
    by (auto simp add: clean_dataframe_def split: sum.splits prod.splits)
  have l: "length dfc = length df" using clean_columns_shape[OF 1] by simp
  from clean_columns_nth[OF 1 assms(2)] obtain lg0 lg1 cells' where
    c: "clean_column rt rules ft ?name (snd (df ! k)) lg0 = Inr (cells', lg1)" and
    n: "dfc ! k = (?name, cells')"
    by blast
  have a: "ft ?name = None \<and> \<not> ?sal \<longrightarrow> df_cleaned ! k = df_original ! k"
  proof
    assume h: "ft ?name = None \<and> \<not> ?sal"
    then have e: "dfc ! k = df ! k" using clean_columns_unmapped[OF 1 assms(2)] by simp
    then have "salary_pass rt dfc ! k = dfc ! k"
      using assms(2) l h by (simp add: salary_pass_other)
    with e show "df_cleaned ! k = df_original ! k" by (simp add: 2 3)
  qed
  have s: "?sal \<Longrightarrow> df_cleaned ! k = (?name, map (pd_to_numeric rt) cells')"
    using salary_pass_salary[of k dfc rt] assms(2) l n by (simp add: 2)
  have b: "ft ?name = None \<and> ?sal \<longrightarrow>
      df_cleaned ! k = (?name, map (pd_to_numeric rt) (snd (df ! k)))"
  proof
    assume h: "ft ?name = None \<and> ?sal"
    then have "dfc ! k = df ! k" using clean_columns_unmapped[OF 1 assms(2)] by simp
    with n have "cells' = snd (df ! k)" by (metis snd_conv)
    with s h show "df_cleaned ! k = (?name, map (pd_to_numeric rt) (snd (df ! k)))" by simp
  qed
  have d: "?sal \<longrightarrow>
       (\<exists>lg0 lg1 cells'.
          clean_column rt rules ft ?name (snd (df ! k)) lg0 = Inr (cells', lg1) \<and>
          df_cleaned ! k = (?name, map (pd_to_numeric rt) cells')) \<and>
       (\<forall>c \<in> set (snd (df_cleaned ! k)). \<forall>s. c \<noteq> Str s)"
  proof
    assume h: ?sal
    from s[OF h] c have "\<exists>lg0 lg1 cells'.
          clean_column rt rules ft ?name (snd (df ! k)) lg0 = Inr (cells', lg1) \<and>
          df_cleaned ! k = (?name, map (pd_to_numeric rt) cells')" by blast
    moreover have "\<forall>c \<in> set (snd (df_cleaned ! k)). \<forall>s. c \<noteq> Str s"
      using s[OF h] by (auto simp add: pd_to_numeric_no_str)
    ultimately show "(\<exists>lg0 lg1 cells'.
          clean_column rt rules ft ?name (snd (df ! k)) lg0 = Inr (cells', lg1) \<and>
          df_cleaned ! k = (?name, map (pd_to_numeric rt) cells')) \<and>
       (\<forall>c \<in> set (snd (df_cleaned ! k)). \<forall>s. c \<noteq> Str s)" by blast
  qed
  from 3 a b d show ?thesis by blast
qed

theorem passthrough_unmapped_witness:
  "clean_dataframe sample_runtime default_rules mixed_table mixed_types =
     Inr ([(py ''name'', [Str (py ''Zhang San''), Str (py ''Li Si'')]),
           (py ''email'', [Str (py ''zhang@example.com''), Str (py ''lisi@example'')]),
           (py ''Base_Salary'', [Null, PyFloat 12]),
           (py ''salary_contact'', [Null, PyFloat 15])],
          mixed_table,
          [\<lparr>row = 1, column = py ''email'', raw = Str (py ''lisi@example''),
             cleaned = Str (py ''lisi@example''), issue = invalid_email,
             rule = Some (py ''valid_email_format''), hint = Hint_email_incomplete\<rparr>,
           \<lparr>row = 1, column = py ''salary_contact'', raw = Str (py ''15''),
             cleaned = Str (py ''15''), issue = invalid_email,
             rule = Some (py ''valid_email_format''), hint = Hint_email_incomplete\<rparr>]) \<and>
   length mixed_table = 4 \<and>
   mixed_types (fst (mixed_table ! 0)) = None \<and>
   \<not> py_in (py ''salary'') (py_lower (fst (mixed_table ! 0))) \<and>
   mixed_types (fst (mixed_table ! 1)) = Some Email \<and>
   \<not> py_in (py ''salary'') (py_lower (fst (mixed_table ! 1))) \<and>
   mixed_types (fst (mixed_table ! 2)) = None \<and>
   py_in (py ''salary'') (py_lower (fst (mixed_table ! 2))) \<and>
   map (pd_to_numeric sample_runtime) (snd (mixed_table ! 2)) = [Null, PyFloat 12] \<and>
   mixed_types (fst (mixed_table ! 3)) = Some Email \<and>
   py_in (py ''salary'') (py_lower (fst (mixed_table ! 3))) \<and>
   clean_column sample_runtime default_rules mixed_types (fst (mixed_table ! 3))
       (snd (mixed_table ! 3)) [] =
     Inr ([Str (py ''li@corp.cn''), Str (py ''15'')],
          [\<lparr>row = 1, column = py ''salary_contact'', raw = Str (py ''15''),
             cleaned = Str (py ''15''), issue = invalid_email,
             rule = Some (py ''valid_email_format''), hint = Hint_email_incomplete\<rparr>]) \<and>
   map (pd_to_numeric sample_runtime) [Str (py ''li@corp.cn''), Str (py ''15'')] =
     [Null, PyFloat 15]"
proof -
  note r = mixed_table_run
  have k: "0 < length mixed_table" "2 < length mixed_table" "3 < length mixed_table"
    "length mixed_table = 4"
    by (simp_all add: mixed_table_def)
  have t: "mixed_types (fst (mixed_table ! 0)) = None"
    "mixed_types (fst (mixed_table ! 1)) = Some Email"
    "mixed_types (fst (mixed_table ! 2)) = None"
    "mixed_types (fst (mixed_table ! 3)) = Some Email"
    by (simp_all add: mixed_table_def mixed_types_def)
  have n: "\<not> py_in (py ''salary'') (py_lower (fst (mixed_table ! 0)))"
    "\<not> py_in (py ''salary'') (py_lower (fst (mixed_table ! 1)))"
    "py_in (py ''salary'') (py_lower (fst (mixed_table ! 2)))"
    "py_in (py ''salary'') (py_lower (fst (mixed_table ! 3)))"
    by code_simp+
  have c: "clean_column sample_runtime default_rules mixed_types (fst (mixed_table ! 3))
       (snd (mixed_table ! 3)) [] =
     Inr ([Str (py ''li@corp.cn''), Str (py ''15'')],
          [\<lparr>row = 1, column = py ''salary_contact'', raw = Str (py ''15''),
             cleaned = Str (py ''15''), issue = invalid_email,
             rule = Some (py ''valid_email_format''), hint = Hint_email_incomplete\<rparr>])"
    by code_simp
  have p: "plain_decimal (py ''abc'') = None" "plain_decimal (py ''li@corp.cn'') = None"
    by code_simp+
  have m: "match_number_here (py ''12'') = Some (py ''12'')"
    "match_number_here (py ''15'') = Some (py ''15'')" by code_simp+
  have f: "float_of_token (py ''12'') = 12" "float_of_token (py ''15'') = 15"
    by (simp_all add: float_of_token_def int_of_digits_def is_digit_def py_def)
  have q: "plain_decimal (py ''12'') = Some 12" "plain_decimal (py ''15'') = Some 15"
    by (simp_all add: plain_decimal_def m f)
  have ts: "to_numeric_str sample_runtime = plain_decimal"
    by (simp add: sample_runtime_def)
  have u: "map (pd_to_numeric sample_runtime) (snd (mixed_table ! 2)) = [Null, PyFloat 12]"
    "map (pd_to_numeric sample_runtime) [Str (py ''li@corp.cn''), Str (py ''15'')] =
       [Null, PyFloat 15]"
    by (simp_all add: mixed_table_def pd_to_numeric_def ts p q)
  show ?thesis
    using passthrough_unmapped[OF r k(1)] passthrough_unmapped[OF r k(2)]
      passthrough_unmapped[OF r k(3)] r k(4) t n c u
    by simp
qed

text \<open>
  The claim as it was made gives every column that is absent from the type map as
  unchanged. The column \<^verbatim>\<open>salary\<close> with the one cell \<^verbatim>\<open>abc\<close> and the empty type map comes
  back with the absent value in place of the text.
\<close>

theorem salary_coerced_counterexample:
  "(Map.empty :: ustring \<rightharpoonup> field_type) (py ''salary'') = None \<and>
   clean_dataframe sample_runtime default_rules [(py ''salary'', [Str (py ''abc'')])] Map.empty =
     Inr ([(py ''salary'', [Null])], [(py ''salary'', [Str (py ''abc'')])], [])"
proof -
  have "clean_dataframe sample_runtime default_rules [(py ''salary'', [Str (py ''abc'')])] Map.empty =
     Inr ([(py ''salary'', [Null])], [(py ''salary'', [Str (py ''abc'')])], [])"
    by code_simp
  then show ?thesis by simp
qed

subsection \<open>The calls of \<^verbatim>\<open>add_log\<close>\<close>

lemma clean_numeric_list_log_unchanged:
  "clean_numeric_list rt rules col i cells lg = Inr (cs, lg') \<Longrightarrow> lg' = lg"
proof (induction cells arbitrary: i lg cs lg')
  case Nil
  then show ?case by simp
next
  case (Cons v vs)
  from Cons.prems obtain c lg1 cs1 where
    1: "clean_numeric rt rules v i col lg = Inr (c, lg1)" and
    2: "clean_numeric_list rt rules col (Suc i) vs lg1 = Inr (cs1, lg')"
    by (auto split: sum.splits prod.splits)
  from clean_numeric_log_unchanged[OF 1] Cons.IH[OF 2] show ?case by simp
qed

lemma salary_cells:
  "clean_numeric rt default_rules (PyInt 5000) i (py ''salary'') lg = Inr (PyFloat 5000, lg)"
  "clean_numeric rt default_rules (PyInt 6000) i (py ''salary'') lg = Inr (PyFloat 6000, lg)"
  "clean_numeric rt default_rules (PyInt (- 1000)) i (py ''salary'') lg = Inl AttributeError"
proof -
  have i: "py_str rt (PyInt 5000) = py ''5000''" "py_str rt (PyInt 6000) = py ''6000''"
    "py_str rt (PyInt (- 1000)) = py ''-1000''"
    by (simp_all add: int_str_def digits_of.simps py_def)
  have "py_strip (py ''5000'') = py ''5000''" "py_strip (py ''6000'') = py ''6000''"
    "py_strip (py ''-1000'') = py ''-1000''"
    by code_simp+
  with i have s: "py_strip (py_str rt (PyInt 5000)) = py ''5000''"
    "py_strip (py_str rt (PyInt 6000)) = py ''6000''"
    "py_strip (py_str rt (PyInt (- 1000))) = py ''-1000''"
    by simp_all
  have k: "py_lower (py ''5000'') \<notin> set null_keywords" "py_lower (py ''6000'') \<notin> set null_keywords"
    "py_lower (py ''-1000'') \<notin> set null_keywords"
    by code_simp+
  have m: "search_number (strip_currency (py_lower (py ''5000''))) = Some (py ''5000'')"
    "search_number (strip_currency (py_lower (py ''6000''))) = Some (py ''6000'')"
    "search_number (strip_currency (py_lower (py ''-1000''))) = Some (py ''-1000'')"
    by code_simp+
  have f: "float_of_token (py ''5000'') = 5000" "float_of_token (py ''6000'') = 6000"
    "float_of_token (py ''-1000'') = - 1000"
    by (simp_all add: float_of_token_def int_of_digits_def is_digit_def py_def)
  show "clean_numeric rt default_rules (PyInt 5000) i (py ''salary'') lg = Inr (PyFloat 5000, lg)"
    using clean_numeric_token[OF _ s(1) _ k(1) m(1), of default_rules i "py ''salary''" lg]
    by (simp add: f default_rules_def salary_rules)
  show "clean_numeric rt default_rules (PyInt 6000) i (py ''salary'') lg = Inr (PyFloat 6000, lg)"
    using clean_numeric_token[OF _ s(2) _ k(2) m(2), of default_rules i "py ''salary''" lg]
    by (simp add: f default_rules_def salary_rules)
  show "clean_numeric rt default_rules (PyInt (- 1000)) i (py ''salary'') lg = Inl AttributeError"
    using clean_numeric_token[OF _ s(3) _ k(3) m(3), of default_rules i "py ''salary''" lg]
    by (simp add: f default_rules_def salary_rules add_log_def)
qed

text \<open>
  Claim C1 says that \<^verbatim>\<open>clean_dataframe\<close> completes and returns a result for every table
  and type map, each failure of a cell being recovered by a substituted value and a
  log entry. The code does not: on the \<^verbatim>\<open>salary\<close> column of the application's own sample
  data, which \<^verbatim>\<open>detect_type\<close> classifies as a number column, the cell \<^verbatim>\<open>-1000\<close> violates
  the minimum, \<^verbatim>\<open>clean_numeric\<close> calls \<^verbatim>\<open>self.add_log\<close>, and the \<^verbatim>\<open>AttributeError\<close> leaves
  \<^verbatim>\<open>clean_dataframe\<close> with no result and no log.
\<close>

theorem clean_dataframe_sample_salary_raises:
  "detect_type rt (py ''salary'') [PyInt 5000, PyInt 6000, PyInt (- 1000), PyInt 8000, PyInt 7500]
     = Number \<and>
   clean_dataframe rt default_rules
     [(py ''salary'', [PyInt 5000, PyInt 6000, PyInt (- 1000), PyInt 8000, PyInt 7500])]
     [py ''salary'' \<mapsto> Number] = Inl AttributeError"
proof -
  have d: "detect_type rt (py ''salary'') [PyInt 5000, PyInt 6000, PyInt (- 1000), PyInt 8000, PyInt 7500]
     = Number"
    by (simp add: detect_type_def dropna_def numeric_crossed_def numeric_count_def
        count_where_def pd_to_numeric_def fraction_def)
  have c: "clean_dataframe rt default_rules
     [(py ''salary'', [PyInt 5000, PyInt 6000, PyInt (- 1000), PyInt 8000, PyInt 7500])]
     [py ''salary'' \<mapsto> Number] = Inl AttributeError"
    by (simp add: clean_dataframe_def clean_column_def salary_cells)
  from d c show ?thesis by simp
qed

text \<open>
  Claim C8 says that \<^verbatim>\<open>clean_dataframe\<close> returns, for every table and type map, a cleaned
  and an original table with the columns and the row count of the input. Whenever it
  returns, they have (\<open>clean_dataframe_shape\<close>); but for a number column with a
  placeholder cell it returns no table at all, by the missing \<^verbatim>\<open>add_log\<close> of claim C1.
\<close>

theorem clean_dataframe_placeholder_raises:
  "clean_dataframe rt rules [(py ''age'', [Str (py ''unknown'')])] [py ''age'' \<mapsto> Number]
     = Inl AttributeError"
  by code_simp

subsection \<open>The rows named in the log\<close>

lemma clean_email_first_row:
  "clean_email rt v 0 col lg = (c, lg') \<Longrightarrow>
   \<exists>new. lg' = lg @ new \<and> list_all (first_row_of col) new"
  by (auto simp add: clean_email_def Let_def first_row_of_def split: if_splits)

lemma clean_date_first_row:
  "clean_date rt v 0 col lg = (c, lg') \<Longrightarrow>
   \<exists>new. lg' = lg @ new \<and> list_all (first_row_of col) new"
  by (auto simp add: clean_date_def Let_def first_row_of_def
      split: if_splits option.splits prod.splits)

lemma series_apply_first_row:
  assumes f: "\<And>v lg c lg'. f v lg = (c, lg') \<Longrightarrow>
                \<exists>new. lg' = lg @ new \<and> list_all (first_row_of col) new"
  shows "series_apply f cells lg = (cs, lg') \<Longrightarrow>
         \<exists>new. lg' = lg @ new \<and> list_all (first_row_of col) new"
proof (induction cells arbitrary: lg cs lg')
  case Nil
  then show ?case by simp
next
  case (Cons v vs)
  from Cons.prems obtain c lg1 cs1 where
    1: "f v lg = (c, lg1)" and 2: "series_apply f vs lg1 = (cs1, lg')"
    by (auto split: prod.splits)
  from f[OF 1] obtain n1 where n1: "lg1 = lg @ n1" "list_all (first_row_of col) n1" by blast
  from Cons.IH[OF 2] obtain n2 where n2: "lg' = lg1 @ n2" "list_all (first_row_of col) n2"
    by blast
  have "lg' = lg @ (n1 @ n2)" "list_all (first_row_of col) (n1 @ n2)"
    using n1 n2 by simp_all
  then show ?case by blast
qed

lemma clean_column_first_row:
  assumes "clean_column rt rules ft col cells lg = Inr (cells', lg')"
  shows "\<exists>new. lg' = lg @ new \<and> list_all (first_row_of col) new"
proof (cases "ft col")
  case None
  with assms show ?thesis by (simp add: clean_column_def)
next
  case (Some t)
  show ?thesis
  proof (cases t)
    case Number
    with Some assms obtain cl where "clean_numeric_list rt rules col 0 cells lg = Inr (cl, lg')"
      by (auto simp add: clean_column_def split: sum.splits prod.splits)
    then have "lg' = lg" by (rule clean_numeric_list_log_unchanged)
    then show ?thesis by simp
  next
    case Email
    with Some assms have "series_apply (\<lambda>x. clean_email rt x 0 col) cells lg = (cells', lg')"
      by (simp add: clean_column_def)
    then show ?thesis
      by (rule series_apply_first_row[rotated]) (rule clean_email_first_row)
  next
    case Date
    with Some assms have "series_apply (\<lambda>x. clean_date rt x 0 col) cells lg = (cells', lg')"
      by (simp add: clean_column_def)
    then show ?thesis
      by (rule series_apply_first_row[rotated]) (rule clean_date_first_row)
  next
    case Text
    with Some assms show ?thesis by (simp add: clean_column_def)
  next
    case Boolean
    with Some assms show ?thesis by (simp add: clean_column_def)
  qed
qed

lemma clean_columns_first_row:
  "clean_columns rt rules ft df lg = Inr (df', lg') \<Longrightarrow>
   \<exists>new. lg' = lg @ new \<and> list_all (\<lambda>e. row e = 1 \<and> column e \<in> fst ` set df) new"
proof (induction df arbitrary: lg df' lg')
  case Nil
  then show ?case by simp
next
  case (Cons a df)
  obtain col cells where a: "a = (col, cells)" by (cases a)
  from Cons.prems obtain cells' lg1 rest' where
    1: "clean_column rt rules ft col cells lg = Inr (cells', lg1)" and
    2: "clean_columns rt rules ft df lg1 = Inr (rest', lg')"
    by (auto simp add: a split: sum.splits prod.splits)
  from clean_column_first_row[OF 1] obtain n1 where
    n1: "lg1 = lg @ n1" "list_all (first_row_of col) n1" by blast
  from Cons.IH[OF 2] obtain n2 where
    n2: "lg' = lg1 @ n2" "list_all (\<lambda>e. row e = 1 \<and> column e \<in> fst ` set df) n2" by blast
  have "lg' = lg @ (n1 @ n2)" using n1 n2 by simp
  moreover have "list_all (\<lambda>e. row e = 1 \<and> column e \<in> fst ` set (a # df)) (n1 @ n2)"
    using n1(2) n2(2) by (auto simp add: list_all_iff first_row_of_def a)
  ultimately show ?case by blast
qed

lemma clean_dataframe_log_rows:
  assumes "clean_dataframe rt rules df ft = Inr (df_cleaned, df_original, lg)"
  shows "list_all (\<lambda>e. row e = 1 \<and> column e \<in> fst ` set df) lg"
proof -
  from assms have "clean_columns rt rules ft df [] = Inr (df_original, lg) \<or>
      (\<exists>dfc. clean_columns rt rules ft df [] = Inr (dfc, lg))"
    by (auto simp add: clean_dataframe_def split: sum.splits prod.splits)
  then obtain dfc where "clean_columns rt rules ft df [] = Inr (dfc, lg)" by blast
  from clean_columns_first_row[OF this] show ?thesis by simp
qed

text \<open>
  Claim C2 says that the \<open>row\<close> field of every log entry is 1 plus the position of the
  cell, for date, numeric and email cleaning alike. The email and the date branch pass
  the row index 0 for every cell: in the \<^verbatim>\<open>email\<close> column of the application's sample
  data the invalid address stands at position 1, and its entry says row 1, not row 2;
  in the \<^verbatim>\<open>date\<close> column the entries for the cells at positions 1 and 4 both say row 1.
\<close>

theorem clean_dataframe_sample_rows:
  "clean_dataframe rt rules
     [(py ''email'', [Str (py ''zhang#example.com''), Str (py ''lisi@example''), Str (py ''wang@test.com''),
                   Str (py ''zhao@company.cn''), Str (py ''qian@tech.io'')])]
     [py ''email'' \<mapsto> Email] =
   Inr ([(py ''email'', [Str (py ''zhang@example.com''), Str (py ''lisi@example''), Str (py ''wang@test.com''),
                      Str (py ''zhao@company.cn''), Str (py ''qian@tech.io'')])],
        [(py ''email'', [Str (py ''zhang#example.com''), Str (py ''lisi@example''), Str (py ''wang@test.com''),
                      Str (py ''zhao@company.cn''), Str (py ''qian@tech.io'')])],
        [\<lparr>row = 1, column = py ''email'', raw = Str (py ''lisi@example''), cleaned = Str (py ''lisi@example''),
           issue = invalid_email, rule = Some (py ''valid_email_format''),
           hint = Hint_email_incomplete\<rparr>]) \<and>
   clean_dataframe rt rules
     [(py ''date'', [Str (py ''2024-01-15''), Str (py ''01/02/2024''), Str (py ''2024.03.20''), Str (py ''2024-04-01''),
                  Str (py ''not-a-date'')])]
     [py ''date'' \<mapsto> Date] =
   Inr ([(py ''date'', [Str (py ''2024-01-15''), Str (py ''2024-01-02''), Str (py ''2024-03-20''), Str (py ''2024-04-01''),
                     Str (py ''not-a-date'')])],
        [(py ''date'', [Str (py ''2024-01-15''), Str (py ''01/02/2024''), Str (py ''2024.03.20''), Str (py ''2024-04-01''),
                     Str (py ''not-a-date'')])],
        [\<lparr>row = 1, column = py ''date'', raw = Str (py ''01/02/2024''), cleaned = Str (py ''2024-01-02''),
           issue = ambiguous_date, rule = None, hint = Hint_ambiguous (py ''01'') (py ''02'')\<rparr>,
         \<lparr>row = 1, column = py ''date'', raw = Str (py ''not-a-date''), cleaned = Null,
           issue = invalid_format, rule = Some (py ''valid_date_format''),
           hint = Hint_date_formats\<rparr>])"
  by code_simp

section \<open>Properties of \<^verbatim>\<open>detect_type\<close>\<close>

lemma counts_dates_read_as_numbers:
  "dropna [Str (py ''2024-01-15''), Str (py ''2024-02-01''), Null, Str (py ''2024-03-20'')] =
     [Str (py ''2024-01-15''), Str (py ''2024-02-01''), Str (py ''2024-03-20'')]"
  "numeric_count date_reading_runtime
     [Str (py ''2024-01-15''), Str (py ''2024-02-01''), Str (py ''2024-03-20'')] = 3"
  "date_count date_reading_runtime
     [Str (py ''2024-01-15''), Str (py ''2024-02-01''), Str (py ''2024-03-20'')] = 3"
proof -
  have y: "match_ymd (py ''2024-01-15'') \<noteq> None" "match_ymd (py ''2024-02-01'') \<noteq> None"
    "match_ymd (py ''2024-03-20'') \<noteq> None"
    by code_simp+
  have o: "match_dmy (py ''2024-01-15'') = None" "match_dmy (py ''2024-02-01'') = None"
    "match_dmy (py ''2024-03-20'') = None"
    "match_dot (py ''2024-01-15'') = None" "match_dot (py ''2024-02-01'') = None"
    "match_dot (py ''2024-03-20'') = None"
    by code_simp+
  have t: "to_numeric_str date_reading_runtime =
      (\<lambda>s. if match_ymd s \<noteq> None then Some 0 else plain_decimal s)"
    by (simp add: date_reading_runtime_def)
  show "dropna [Str (py ''2024-01-15''), Str (py ''2024-02-01''), Null, Str (py ''2024-03-20'')] =
     [Str (py ''2024-01-15''), Str (py ''2024-02-01''), Str (py ''2024-03-20'')]"
    by (simp add: dropna_def)
  show "numeric_count date_reading_runtime
     [Str (py ''2024-01-15''), Str (py ''2024-02-01''), Str (py ''2024-03-20'')] = 3"
    using y by (simp add: numeric_count_def count_where_def pd_to_numeric_def t)
  show "date_count date_reading_runtime
     [Str (py ''2024-01-15''), Str (py ''2024-02-01''), Str (py ''2024-03-20'')] = 3"
    using y by (simp add: date_count_def count_where_def o)
qed

lemma counts_sample_age:
  "dropna [PyInt 25, PyInt 30, PyInt 150, Str (py ''invalid''), PyInt 28] =
     [PyInt 25, PyInt 30, PyInt 150, Str (py ''invalid''), PyInt 28]"
  "numeric_count sample_runtime
     [PyInt 25, PyInt 30, PyInt 150, Str (py ''invalid''), PyInt 28] = 4"
proof -
  have p: "plain_decimal (py ''invalid'') = None" by code_simp
  have t: "to_numeric_str sample_runtime = plain_decimal" by (simp add: sample_runtime_def)
  show "dropna [PyInt 25, PyInt 30, PyInt 150, Str (py ''invalid''), PyInt 28] =
     [PyInt 25, PyInt 30, PyInt 150, Str (py ''invalid''), PyInt 28]"
    by (simp add: dropna_def)
  show "numeric_count sample_runtime
     [PyInt 25, PyInt 30, PyInt 150, Str (py ''invalid''), PyInt 28] = 4"
    by (simp add: numeric_count_def count_where_def pd_to_numeric_def t p)
qed

lemma counts_sample_date:
  "dropna [Str (py ''2024-01-15''), Str (py ''01/02/2024''), Str (py ''2024.03.20''),
           Str (py ''2024-04-01''), Str (py ''not-a-date'')] =
     [Str (py ''2024-01-15''), Str (py ''01/02/2024''), Str (py ''2024.03.20''),
      Str (py ''2024-04-01''), Str (py ''not-a-date'')]"
  "numeric_count sample_runtime
     [Str (py ''2024-01-15''), Str (py ''01/02/2024''), Str (py ''2024.03.20''),
      Str (py ''2024-04-01''), Str (py ''not-a-date'')] = 0"
  "date_count sample_runtime
     [Str (py ''2024-01-15''), Str (py ''01/02/2024''), Str (py ''2024.03.20''),
      Str (py ''2024-04-01''), Str (py ''not-a-date'')] = 4"
proof -
  have p: "plain_decimal (py ''2024-01-15'') = None" "plain_decimal (py ''01/02/2024'') = None"
    "plain_decimal (py ''2024.03.20'') = None" "plain_decimal (py ''2024-04-01'') = None"
    "plain_decimal (py ''not-a-date'') = None"
    by code_simp+
  have t: "to_numeric_str sample_runtime = plain_decimal" by (simp add: sample_runtime_def)
  have m: "match_ymd (py ''2024-01-15'') \<noteq> None" "match_ymd (py ''01/02/2024'') = None"
    "match_ymd (py ''2024.03.20'') = None" "match_ymd (py ''2024-04-01'') \<noteq> None"
    "match_ymd (py ''not-a-date'') = None"
    "match_dmy (py ''2024-01-15'') = None" "match_dmy (py ''01/02/2024'') \<noteq> None"
    "match_dmy (py ''2024.03.20'') = None" "match_dmy (py ''2024-04-01'') = None"
    "match_dmy (py ''not-a-date'') = None"
    "match_dot (py ''2024-01-15'') = None" "match_dot (py ''01/02/2024'') = None"
    "match_dot (py ''2024.03.20'') \<noteq> None" "match_dot (py ''2024-04-01'') = None"
    "match_dot (py ''not-a-date'') = None"
    by code_simp+
  show "dropna [Str (py ''2024-01-15''), Str (py ''01/02/2024''), Str (py ''2024.03.20''),
           Str (py ''2024-04-01''), Str (py ''not-a-date'')] =
     [Str (py ''2024-01-15''), Str (py ''01/02/2024''), Str (py ''2024.03.20''),
      Str (py ''2024-04-01''), Str (py ''not-a-date'')]"
    by (simp add: dropna_def)
  show "numeric_count sample_runtime
     [Str (py ''2024-01-15''), Str (py ''01/02/2024''), Str (py ''2024.03.20''),
      Str (py ''2024-04-01''), Str (py ''not-a-date'')] = 0"
    by (simp add: numeric_count_def count_where_def pd_to_numeric_def t p)
  show "date_count sample_runtime
     [Str (py ''2024-01-15''), Str (py ''01/02/2024''), Str (py ''2024.03.20''),
      Str (py ''2024-04-01''), Str (py ''not-a-date'')] = 4"
    using m by (simp add: date_count_def count_where_def)
qed

lemma counts_sample_email:
  "dropna [Str (py ''zhang#example.com''), Null, Str (py ''lisi@example'')] =
     [Str (py ''zhang#example.com''), Str (py ''lisi@example'')]"
  "numeric_count sample_runtime [Str (py ''zhang#example.com''), Str (py ''lisi@example'')] = 0"
  "date_count sample_runtime [Str (py ''zhang#example.com''), Str (py ''lisi@example'')] = 0"
proof -
  have p: "plain_decimal (py ''zhang#example.com'') = None"
    "plain_decimal (py ''lisi@example'') = None"
    by code_simp+
  have t: "to_numeric_str sample_runtime = plain_decimal" by (simp add: sample_runtime_def)
  have m: "match_ymd (py ''zhang#example.com'') = None" "match_dmy (py ''zhang#example.com'') = None"
    "match_dot (py ''zhang#example.com'') = None" "match_ymd (py ''lisi@example'') = None"
    "match_dmy (py ''lisi@example'') = None" "match_dot (py ''lisi@example'') = None"
    by code_simp+
  show "dropna [Str (py ''zhang#example.com''), Null, Str (py ''lisi@example'')] =
     [Str (py ''zhang#example.com''), Str (py ''lisi@example'')]"
    by (simp add: dropna_def)
  show "numeric_count sample_runtime [Str (py ''zhang#example.com''), Str (py ''lisi@example'')] = 0"
    by (simp add: numeric_count_def count_where_def pd_to_numeric_def t p)
  show "date_count sample_runtime [Str (py ''zhang#example.com''), Str (py ''lisi@example'')] = 0"
    by (simp add: date_count_def count_where_def m)
qed

text \<open>
  Claim C9, as amended. For a column with at least one cell that is not absent,
  \<^verbatim>\<open>detect_type\<close> checks its rules in a fixed order and the first threshold crossed wins.
  A column whose cells that are not absent exceed both the numeric threshold (more
  than 0.8 of them are numbers) and the date threshold (more than 0.7 of them match a
  date pattern) is a number column. The column is a number column exactly when the
  numeric threshold is exceeded, and a date column exactly when the numeric threshold
  is not exceeded and the date threshold is; a fraction equal to the threshold does
  not exceed it. If neither threshold is exceeded and the name of the column, in
  lower case, contains \<^verbatim>\<open>email\<close> or \<^verbatim>\<open>mail\<close>, the column is an email column, whatever its
  values are. A column without any cell that is not absent is a text column,
  whatever its name is.
\<close>

theorem detect_type_order:
  "(dropna series \<noteq> [] \<and>
    of_nat (numeric_count rt (dropna series)) / of_nat (length (dropna series)) > (8 / 10 :: rat) \<and>
    of_nat (date_count rt (dropna series)) / of_nat (length (dropna series)) > (7 / 10 :: rat) \<longrightarrow>
      detect_type rt name series = Number) \<and>
   (detect_type rt name series = Number \<longleftrightarrow>
      dropna series \<noteq> [] \<and>
      of_nat (numeric_count rt (dropna series)) / of_nat (length (dropna series)) > (8 / 10 :: rat)) \<and>
   (detect_type rt name series = Date \<longleftrightarrow>
      dropna series \<noteq> [] \<and>
      \<not> of_nat (numeric_count rt (dropna series)) / of_nat (length (dropna series)) > (8 / 10 :: rat) \<and>
      of_nat (date_count rt (dropna series)) / of_nat (length (dropna series)) > (7 / 10 :: rat)) \<and>
   (dropna series \<noteq> [] \<and>
    \<not> of_nat (numeric_count rt (dropna series)) / of_nat (length (dropna series)) > (8 / 10 :: rat) \<and>
    \<not> of_nat (date_count rt (dropna series)) / of_nat (length (dropna series)) > (7 / 10 :: rat) \<and>
    (py_in (py ''email'') (py_lower name) \<or> py_in (py ''mail'') (py_lower name)) \<longrightarrow>
      detect_type rt name series = Email) \<and>
   (dropna series = [] \<longrightarrow> detect_type rt name series = Text)"
  by (simp add: detect_type_def numeric_crossed_def date_crossed_def fraction_def
      name_has_mail_def Let_def)


theorem detect_type_order_witness:
  "numeric_count date_reading_runtime
     (dropna [Str (py ''2024-01-15''), Str (py ''2024-02-01''), Null, Str (py ''2024-03-20'')]) = 3 \<and>
   date_count date_reading_runtime
     (dropna [Str (py ''2024-01-15''), Str (py ''2024-02-01''), Null, Str (py ''2024-03-20'')]) = 3 \<and>
   length (dropna [Str (py ''2024-01-15''), Str (py ''2024-02-01''), Null, Str (py ''2024-03-20'')]) = 3 \<and>
   detect_type date_reading_runtime (py ''joined'')
     [Str (py ''2024-01-15''), Str (py ''2024-02-01''), Null, Str (py ''2024-03-20'')] = Number \<and>
   numeric_count sample_runtime
     (dropna [PyInt 25, PyInt 30, PyInt 150, Str (py ''invalid''), PyInt 28]) = 4 \<and>
   length (dropna [PyInt 25, PyInt 30, PyInt 150, Str (py ''invalid''), PyInt 28]) = 5 \<and>
   detect_type sample_runtime (py ''age'')
     [PyInt 25, PyInt 30, PyInt 150, Str (py ''invalid''), PyInt 28] \<noteq> Number \<and>
   numeric_count sample_runtime
     (dropna [Str (py ''2024-01-15''), Str (py ''01/02/2024''), Str (py ''2024.03.20''),
              Str (py ''2024-04-01''), Str (py ''not-a-date'')]) = 0 \<and>
   date_count sample_runtime
     (dropna [Str (py ''2024-01-15''), Str (py ''01/02/2024''), Str (py ''2024.03.20''),
              Str (py ''2024-04-01''), Str (py ''not-a-date'')]) = 4 \<and>
   detect_type sample_runtime (py ''date'')
     [Str (py ''2024-01-15''), Str (py ''01/02/2024''), Str (py ''2024.03.20''),
      Str (py ''2024-04-01''), Str (py ''not-a-date'')] = Date \<and>
   numeric_count sample_runtime
     (dropna [Str (py ''zhang#example.com''), Null, Str (py ''lisi@example'')]) = 0 \<and>
   date_count sample_runtime
     (dropna [Str (py ''zhang#example.com''), Null, Str (py ''lisi@example'')]) = 0 \<and>
   \<not> py_in (py ''email'') (py ''CONTACT E-MAIL'') \<and> \<not> py_in (py ''mail'') (py ''CONTACT E-MAIL'') \<and>
   py_in (py ''mail'') (py_lower (py ''CONTACT E-MAIL'')) \<and>
   detect_type sample_runtime (py ''CONTACT E-MAIL'')
     [Str (py ''zhang#example.com''), Null, Str (py ''lisi@example'')] = Email \<and>
   dropna [Null, Null] = [] \<and>
   detect_type sample_runtime (py ''CONTACT E-MAIL'') [Null, Null] = Text"
proof -
  let ?dates = "[Str (py ''2024-01-15''), Str (py ''2024-02-01''), Null, Str (py ''2024-03-20'')]"
  let ?age = "[PyInt 25, PyInt 30, PyInt 150, Str (py ''invalid''), PyInt 28]"
  let ?col = "[Str (py ''2024-01-15''), Str (py ''01/02/2024''), Str (py ''2024.03.20''),
      Str (py ''2024-04-01''), Str (py ''not-a-date'')]"
  let ?mails = "[Str (py ''zhang#example.com''), Null, Str (py ''lisi@example'')]"
  have h: "\<not> py_in (py ''email'') (py ''CONTACT E-MAIL'')"
    "\<not> py_in (py ''mail'') (py ''CONTACT E-MAIL'')"
    "py_in (py ''mail'') (py_lower (py ''CONTACT E-MAIL''))"
    by code_simp+
  have d: "dropna [Null, Null] = []" by (simp add: dropna_def)
  have 1: "detect_type date_reading_runtime (py ''joined'') ?dates = Number"
    using detect_type_order[of ?dates date_reading_runtime "py ''joined''"]
    by (simp add: counts_dates_read_as_numbers)
  have 2: "detect_type sample_runtime (py ''age'') ?age \<noteq> Number"
    using detect_type_order[of ?age sample_runtime "py ''age''"]
    by (simp add: counts_sample_age)
  have 3: "detect_type sample_runtime (py ''date'') ?col = Date"
    using detect_type_order[of ?col sample_runtime "py ''date''"]
    by (simp add: counts_sample_date)
  have 4: "detect_type sample_runtime (py ''CONTACT E-MAIL'') ?mails = Email"
    using detect_type_order[of ?mails sample_runtime "py ''CONTACT E-MAIL''"] h(3)
    by (simp add: counts_sample_email)
  have 5: "detect_type sample_runtime (py ''CONTACT E-MAIL'') [Null, Null] = Text"
    using detect_type_order[of "[Null, Null]" sample_runtime "py ''CONTACT E-MAIL''"]
    by (simp add: d)
  show ?thesis
    using 1 2 3 4 5 h d
    by (simp add: counts_dates_read_as_numbers counts_sample_age counts_sample_date
        counts_sample_email)
qed

text \<open>
  The claim as it was made gives every column whose name contains \<^verbatim>\<open>email\<close> as an email
  column when neither threshold is crossed. The column named \<^verbatim>\<open>email\<close> whose two cells
  are absent crosses neither threshold, and \<^verbatim>\<open>detect_type\<close> gives \<^verbatim>\<open>text\<close> for it.
\<close>

theorem detect_type_all_null_counterexample:
  "py_in (py ''email'') (py_lower (py ''email'')) \<and>
   dropna [Null, Null] = [] \<and>
   numeric_count sample_runtime (dropna [Null, Null]) = 0 \<and>
   date_count sample_runtime (dropna [Null, Null]) = 0 \<and>
   \<not> numeric_crossed sample_runtime (dropna [Null, Null]) \<and>
   \<not> date_crossed sample_runtime (dropna [Null, Null]) \<and>
   detect_type sample_runtime (py ''email'') [Null, Null] = Text"
proof -
  have h: "py_in (py ''email'') (py_lower (py ''email''))" by code_simp
  have d: "dropna [Null, Null] = []" by (simp add: dropna_def)
  have c: "numeric_count sample_runtime (dropna [Null, Null]) = 0"
    "date_count sample_runtime (dropna [Null, Null]) = 0"
    by (simp_all add: d numeric_count_def date_count_def count_where_def)
  have n: "\<not> numeric_crossed sample_runtime (dropna [Null, Null])"
    by (simp add: d numeric_crossed_def numeric_count_def count_where_def fraction_def)
  have t: "\<not> date_crossed sample_runtime (dropna [Null, Null])"
    by (simp add: d date_crossed_def date_count_def count_where_def fraction_def)
  have "detect_type sample_runtime (py ''email'') [Null, Null] = Text"
    by (simp add: detect_type_def d)
  with h d c n t show ?thesis by simp
qed

end
